theory Spec2Isabelle
  imports Complex_Main
begin

section \<open>History store (src/src/memory\_manager.py)\<close>

text \<open>
  A history entry is the dictionary built by \<open>MemoryManager.add\<close>. The time stamp is
  \<open>datetime.now().isoformat()\<close>; the clock is outside the program, so the rendered
  instant is an argument of every operation that reads it.
\<close>

record history_entry =
  query :: string
  result :: string
  operation_type :: string
  timestamp :: string

text \<open>
  The object state: the list \<open>_history\<close> (oldest entry first) and \<open>_max_history\<close>,
  a Python \<open>int\<close> that the constructor stores unchecked.
\<close>

record memory_manager =
  history :: "history_entry list"
  max_history :: int

definition MemoryManager :: "int \<Rightarrow> memory_manager" where
  "MemoryManager mh = \<lparr>history = [], max_history = mh\<rparr>"

text \<open>
  \<open>add\<close> appends and then, when the list is longer than \<open>_max_history\<close>, does
  \<open>pop(0)\<close>. The list is never empty at that point (an entry was just appended), so
  \<open>pop(0)\<close> cannot raise and is \<open>tl\<close>.
\<close>

definition add :: "memory_manager \<Rightarrow> string \<Rightarrow> string \<Rightarrow> string \<Rightarrow> string \<Rightarrow> memory_manager" where
  "add m q r ot now =
     (let entry = \<lparr>query = q, result = r, operation_type = ot, timestamp = now\<rparr>;
          h = history m @ [entry]
      in if int (length h) > max_history m then m\<lparr>history := tl h\<rparr> else m\<lparr>history := h\<rparr>)"

text \<open>
  Python's \<open>xs[i:]\<close> for an integer \<open>i\<close>: a negative start counts from the end and
  is clamped at the front of the list, a start past the end gives the empty list.
\<close>

definition slice_from :: "'a list \<Rightarrow> int \<Rightarrow> 'a list" where
  "slice_from xs i =
     (if i < 0 then drop (nat (max 0 (int (length xs) + i))) xs else drop (nat i) xs)"

text \<open>\<open>get_history(limit)\<close>: \<open>None\<close> is the omitted limit.\<close>

definition get_history :: "memory_manager \<Rightarrow> int option \<Rightarrow> history_entry list" where
  "get_history m limit =
     (case limit of
        None \<Rightarrow> rev (history m)
      | Some l \<Rightarrow> rev (slice_from (history m) (- l)))"

definition get_last :: "memory_manager \<Rightarrow> history_entry option" where
  "get_last m = (if history m = [] then None else Some (last (history m)))"

definition clear :: "memory_manager \<Rightarrow> memory_manager" where
  "clear m = m\<lparr>history := []\<rparr>"

definition count :: "memory_manager \<Rightarrow> int" where
  "count m = int (length (history m))"

text \<open>
  A run of the store: any sequence of \<open>add\<close> and \<open>clear\<close> calls, applied from left
  to right.
\<close>

datatype store_op = Record string string string string | Clear

fun entry_of :: "store_op \<Rightarrow> history_entry option" where
  "entry_of (Record q r ot now) =
     Some \<lparr>query = q, result = r, operation_type = ot, timestamp = now\<rparr>"
| "entry_of Clear = None"

fun apply_store_op :: "memory_manager \<Rightarrow> store_op \<Rightarrow> memory_manager" where
  "apply_store_op m (Record q r ot now) = add m q r ot now"
| "apply_store_op m Clear = clear m"

definition run_ops :: "memory_manager \<Rightarrow> store_op list \<Rightarrow> memory_manager" where
  "run_ops m ops = foldl apply_store_op m ops"

text \<open>
  The entries inserted since the last \<open>clear\<close>, in insertion order: what an
  unbounded store would hold.
\<close>

fun inserted :: "history_entry list \<Rightarrow> store_op list \<Rightarrow> history_entry list" where
  "inserted acc [] = acc"
| "inserted acc (Record q r ot now # ops) =
     inserted (acc @ [\<lparr>query = q, result = r, operation_type = ot, timestamp = now\<rparr>]) ops"
| "inserted acc (Clear # ops) = inserted [] ops"

section \<open>Numbers and exceptions\<close>

text \<open>
  An operand or a result is a Python number: a \<open>float\<close> (every captured operand, every
  result but a factorial) or an \<open>int\<close> (the implicit exponents of \<open>square\<close> and
  \<open>cube\<close>, the result of \<open>factorial\<close>). Floats are modelled by the real numbers they
  denote: rounding, overflow to infinity and NaN are not part of the model, integers are
  unbounded.
\<close>

datatype pynum = PyFloat real | PyInt int

fun val :: "pynum \<Rightarrow> real" where
  "val (PyFloat x) = x"
| "val (PyInt i) = real_of_int i"

text \<open>
  The exceptions the program raises or receives from the interpreter. The handlers of the
  orchestrator read the message of every exception but \<open>ZeroDivisionError\<close>.
\<close>

datatype py_error = ValueError string | ZeroDivisionError string | TypeError string

fun str_error :: "py_error \<Rightarrow> string" where
  "str_error (ValueError msg) = msg"
| "str_error (ZeroDivisionError msg) = msg"
| "str_error (TypeError msg) = msg"

text \<open>\<open>int(x)\<close> truncates a float towards zero.\<close>

fun py_int :: "pynum \<Rightarrow> int" where
  "py_int (PyFloat x) = (if x < 0 then \<lceil>x\<rceil> else \<lfloor>x\<rfloor>)"
| "py_int (PyInt i) = i"

text \<open>
  \<open>float(a ** b)\<close>: zero to a negative power raises \<open>ZeroDivisionError\<close>; a negative base
  with a fractional exponent gives a complex number, which \<open>float\<close> rejects with
  \<open>TypeError\<close>; an integral exponent is repeated multiplication or division.
\<close>

definition py_pow :: "real \<Rightarrow> real \<Rightarrow> py_error + real" where
  "py_pow a b =
     (if a = 0 \<and> b < 0
        then Inl (ZeroDivisionError ''0.0 cannot be raised to a negative power'')
      else if a < 0 \<and> b \<noteq> of_int \<lfloor>b\<rfloor>
        then Inl (TypeError
                    (''float() argument must be a string or a real number, not '' @
                     [CHR 0x27] @ ''complex'' @ [CHR 0x27]))
      else if b = of_int \<lfloor>b\<rfloor> then Inr (a powi \<lfloor>b\<rfloor>)
      else Inr (a powr b))"

section \<open>Operation evaluator (src/calculators/scientific\_calculator.py)\<close>

text \<open>
  The dictionary handed from the parser to the calculator. The parser always sets the three
  keys; \<open>calculate\<close> reads \<open>operation\<close> and \<open>operands\<close>.
\<close>

record parsed_request =
  operation :: string
  operands :: "pynum list"
  original_text :: string

definition supported_operations :: "string list" where
  "supported_operations =
     [''add'', ''subtract'', ''multiply'', ''divide'',
      ''power'', ''square'', ''cube'',
      ''sqrt'', ''cbrt'',
      ''sin'', ''cos'', ''tan'',
      ''log'', ''ln'',
      ''factorial'']"

definition supports_operation :: "string \<Rightarrow> bool" where
  "supports_operation op = (op \<in> set supported_operations)"

definition calc_add :: "pynum list \<Rightarrow> py_error + pynum" where
  "calc_add ops =
     (if length ops < 2 then Inl (ValueError ''Addition requires at least 2 operands'')
      else Inr (PyFloat (sum_list (map val ops))))"

definition calc_subtract :: "pynum list \<Rightarrow> py_error + pynum" where
  "calc_subtract ops =
     (if length ops \<noteq> 2 then Inl (ValueError ''Subtraction requires exactly 2 operands'')
      else Inr (PyFloat (val (ops ! 0) - val (ops ! 1))))"

definition calc_multiply :: "pynum list \<Rightarrow> py_error + pynum" where
  "calc_multiply ops =
     (if length ops < 2 then Inl (ValueError ''Multiplication requires at least 2 operands'')
      else Inr (PyFloat (foldl (\<lambda>result num. result * val num) 1 ops)))"

definition calc_divide :: "pynum list \<Rightarrow> py_error + pynum" where
  "calc_divide ops =
     (if length ops \<noteq> 2 then Inl (ValueError ''Division requires exactly 2 operands'')
      else if val (ops ! 1) = 0 then Inl (ZeroDivisionError ''Cannot divide by zero'')
      else Inr (PyFloat (val (ops ! 0) / val (ops ! 1))))"

definition calc_power :: "pynum list \<Rightarrow> py_error + pynum" where
  "calc_power ops =
     (if length ops \<noteq> 2 then Inl (ValueError ''Power operation requires exactly 2 operands'')
      else map_sum id PyFloat (py_pow (val (ops ! 0)) (val (ops ! 1))))"

definition calc_sqrt :: "pynum list \<Rightarrow> py_error + pynum" where
  "calc_sqrt ops =
     (if length ops \<noteq> 1 then Inl (ValueError ''Square root requires exactly 1 operand'')
      else if val (ops ! 0) < 0
        then Inl (ValueError ''Cannot calculate square root of negative number'')
      else Inr (PyFloat (sqrt (val (ops ! 0)))))"

text \<open>
  \<open>sympy.cbrt\<close> is the principal cube root, which is complex for a negative argument;
  \<open>float\<close> rejects it.
\<close>

definition calc_cbrt :: "pynum list \<Rightarrow> py_error + pynum" where
  "calc_cbrt ops =
     (if length ops \<noteq> 1 then Inl (ValueError ''Cube root requires exactly 1 operand'')
      else if val (ops ! 0) < 0 then Inl (TypeError ''Cannot convert complex to float'')
      else Inr (PyFloat (root 3 (val (ops ! 0)))))"

definition radians :: "real \<Rightarrow> real" where
  "radians d = d * pi / 180"

definition calc_sin :: "pynum list \<Rightarrow> py_error + pynum" where
  "calc_sin ops =
     (if length ops \<noteq> 1 then Inl (ValueError ''Sine requires exactly 1 operand'')
      else Inr (PyFloat (sin (radians (val (ops ! 0))))))"

definition calc_cos :: "pynum list \<Rightarrow> py_error + pynum" where
  "calc_cos ops =
     (if length ops \<noteq> 1 then Inl (ValueError ''Cosine requires exactly 1 operand'')
      else Inr (PyFloat (cos (radians (val (ops ! 0))))))"

definition calc_tan :: "pynum list \<Rightarrow> py_error + pynum" where
  "calc_tan ops =
     (if length ops \<noteq> 1 then Inl (ValueError ''Tangent requires exactly 1 operand'')
      else Inr (PyFloat (tan (radians (val (ops ! 0))))))"

definition calc_log :: "pynum list \<Rightarrow> py_error + pynum" where
  "calc_log ops =
     (if length ops \<noteq> 1 then Inl (ValueError ''Logarithm requires exactly 1 operand'')
      else if val (ops ! 0) \<le> 0
        then Inl (ValueError ''Cannot calculate logarithm of non-positive number'')
      else Inr (PyFloat (log 10 (val (ops ! 0)))))"

definition calc_ln :: "pynum list \<Rightarrow> py_error + pynum" where
  "calc_ln ops =
     (if length ops \<noteq> 1 then Inl (ValueError ''Natural logarithm requires exactly 1 operand'')
      else if val (ops ! 0) \<le> 0
        then Inl (ValueError ''Cannot calculate natural logarithm of non-positive number'')
      else Inr (PyFloat (ln (val (ops ! 0)))))"

text \<open>
  \<open>_factorial\<close>: the operand must not be negative and must equal its own truncation;
  \<open>sympy.factorial\<close> of a non-negative Python integer is the factorial, exactly.
\<close>

definition calc_factorial :: "pynum list \<Rightarrow> py_error + pynum" where
  "calc_factorial ops =
     (if length ops \<noteq> 1 then Inl (ValueError ''Factorial requires exactly 1 operand'')
      else if val (ops ! 0) < 0
        then Inl (ValueError ''Cannot calculate factorial of negative number'')
      else if val (ops ! 0) \<noteq> of_int (py_int (ops ! 0))
        then Inl (ValueError ''Factorial requires an integer'')
      else Inr (PyInt (fact (nat (py_int (ops ! 0))))))"

text \<open>
  \<open>calculate\<close>: an empty operation name is falsy; the chain of comparisons follows the
  source, its last branch included.
\<close>

definition calculate :: "parsed_request \<Rightarrow> py_error + pynum" where
  "calculate parsed_data =
     (let op = operation parsed_data; ops = operands parsed_data in
      if op = [] then Inl (ValueError ''No operation specified'')
      else if \<not> supports_operation op
        then Inl (ValueError (''Operation '' @ [CHR 0x27] @ op @ [CHR 0x27] @ '' is not supported''))
      else if op = ''add'' then calc_add ops
      else if op = ''subtract'' then calc_subtract ops
      else if op = ''multiply'' then calc_multiply ops
      else if op = ''divide'' then calc_divide ops
      else if op \<in> set [''power'', ''square'', ''cube''] then calc_power ops
      else if op = ''sqrt'' then calc_sqrt ops
      else if op = ''cbrt'' then calc_cbrt ops
      else if op = ''sin'' then calc_sin ops
      else if op = ''cos'' then calc_cos ops
      else if op = ''tan'' then calc_tan ops
      else if op = ''log'' then calc_log ops
      else if op = ''ln'' then calc_ln ops
      else if op = ''factorial'' then calc_factorial ops
      else Inl (ValueError (''Operation '' @ [CHR 0x27] @ op @ [CHR 0x27] @ '' not implemented'')))"

section \<open>Text\<close>

text \<open>
  A Python \<open>str\<close> is modelled by its UTF-8 bytes, one \<open>char\<close> each. Character classes
  and case mapping are those of the ASCII range; a byte above it is a character that is
  neither digit nor white space and has no other case. The white space of \<open>str.strip\<close> and
  of the pattern class \<open>\s\<close> is the same set.
\<close>

definition is_digit :: "char \<Rightarrow> bool" where
  "is_digit c = (c \<in> set ''0123456789'')"

definition is_space :: "char \<Rightarrow> bool" where
  "is_space c =
     (c \<in> set [CHR 0x09, CHR 0x0A, CHR 0x0B, CHR 0x0C, CHR 0x0D,
                CHR 0x1C, CHR 0x1D, CHR 0x1E, CHR 0x1F, CHR '' ''])"

definition lower_char :: "char \<Rightarrow> char" where
  "lower_char c =
     (case map_of (zip ''ABCDEFGHIJKLMNOPQRSTUVWXYZ'' ''abcdefghijklmnopqrstuvwxyz'') c of
        None \<Rightarrow> c
      | Some l \<Rightarrow> l)"

definition lower :: "string \<Rightarrow> string" where
  "lower s = map lower_char s"

definition strip :: "string \<Rightarrow> string" where
  "strip s = rev (dropWhile is_space (rev (dropWhile is_space s)))"

section \<open>Regular expressions of the pattern table\<close>

text \<open>
  The patterns of \<open>NaturalLanguageParser\<close> use literal characters, the classes \<open>\d\<close> and
  \<open>\s\<close>, sequence, alternation, the greedy \<open>?\<close> on a group or a character, the
  greedy \<open>*\<close> and \<open>+\<close> on a character class only, and numbered capture groups.
\<close>

datatype cclass = Lit char | Digit | Space

datatype regex =
    Chr cclass
  | Eps
  | Seq regex regex
  | Alt regex regex
  | Opt regex
  | Star cclass
  | Plus cclass
  | Group nat regex

text \<open>Every search of the parser passes \<open>re.IGNORECASE\<close>.\<close>

fun cmatch :: "cclass \<Rightarrow> char \<Rightarrow> bool" where
  "cmatch (Lit c) x = (lower_char x = lower_char c)"
| "cmatch Digit x = is_digit x"
| "cmatch Space x = is_space x"

text \<open>
  The rests of the input after \<open>c*\<close>, the longest repetition first, as the backtracking
  matcher tries them.
\<close>

fun star_rests :: "cclass \<Rightarrow> string \<Rightarrow> string list" where
  "star_rests c [] = [Nil]"
| "star_rests c (x # xs) = (if cmatch c x then star_rests c xs @ [x # xs] else [x # xs])"

type_synonym captures = "nat \<rightharpoonup> string"

text \<open>
  \<open>matches r s m\<close>: every way the backtracking matcher can match \<open>r\<close> at the start of
  \<open>s\<close> with the groups \<open>m\<close> set so far, in the order in which it tries them; each
  result is the rest of the input and the groups then.
\<close>

fun matches :: "regex \<Rightarrow> string \<Rightarrow> captures \<Rightarrow> (string \<times> captures) list" where
  "matches (Chr c) s m =
     (case s of [] \<Rightarrow> [] | x # xs \<Rightarrow> if cmatch c x then [(xs, m)] else [])"
| "matches Eps s m = [(s, m)]"
| "matches (Seq a b) s m = concat (map (\<lambda>(s', m'). matches b s' m') (matches a s m))"
| "matches (Alt a b) s m = matches a s m @ matches b s m"
| "matches (Opt a) s m = matches a s m @ [(s, m)]"
| "matches (Star c) s m = map (\<lambda>s'. (s', m)) (star_rests c s)"
| "matches (Plus c) s m =
     (case s of [] \<Rightarrow> []
      | x # xs \<Rightarrow> if cmatch c x then map (\<lambda>s'. (s', m)) (star_rests c xs) else [])"
| "matches (Group i a) s m =
     map (\<lambda>(s', m'). (s', m'(i \<mapsto> take (length s - length s') s))) (matches a s m)"

fun group_count :: "regex \<Rightarrow> nat" where
  "group_count (Group i a) = Suc (group_count a)"
| "group_count (Seq a b) = group_count a + group_count b"
| "group_count (Alt a b) = group_count a + group_count b"
| "group_count (Opt a) = group_count a"
| "group_count r = 0"

text \<open>
  \<open>re.search\<close>: the first start position, from the left, at which the pattern matches,
  and there the first match the matcher finds. The result is \<open>match.groups()\<close>: the text
  of groups 1 to n, \<open>None\<close> for a group that took no part.
\<close>

fun search_caps :: "regex \<Rightarrow> string \<Rightarrow> captures option" where
  "search_caps r [] = (case matches r [] Map.empty of [] \<Rightarrow> None | (s', m) # _ \<Rightarrow> Some m)"
| "search_caps r (x # xs) =
     (case matches r (x # xs) Map.empty of
        [] \<Rightarrow> search_caps r xs
      | (s', m) # _ \<Rightarrow> Some m)"

definition re_search :: "regex \<Rightarrow> string \<Rightarrow> string option list option" where
  "re_search r s = map_option (\<lambda>m. map m [1..<Suc (group_count r)]) (search_caps r s)"

fun seq :: "regex list \<Rightarrow> regex" where
  "seq [] = Eps"
| "seq [r] = r"
| "seq (r # rs) = Seq r (seq rs)"

fun alts :: "regex list \<Rightarrow> regex" where
  "alts [] = Eps"
| "alts [r] = r"
| "alts (r # rs) = Alt r (alts rs)"

definition lit :: "string \<Rightarrow> regex" where
  "lit s = seq (map (\<lambda>c. Chr (Lit c)) s)"

text \<open>\<open>\d+\.?\d*\<close>, \<open>\d+\<close> and \<open>\s*\<close>.\<close>

definition num :: regex where
  "num = Seq (Plus Digit) (Seq (Opt (Chr (Lit CHR ''.''))) (Star Digit))"

definition int_num :: regex where
  "int_num = Plus Digit"

definition ws :: regex where
  "ws = Star Space"

text \<open>\<open>(?:what\'?s?|calculate)?\<close> and the longer prefix of the first addition pattern.\<close>

definition whats :: regex where
  "whats = seq [lit ''what'', Opt (Chr (Lit (CHR 0x27))), Opt (Chr (Lit CHR ''s''))]"

definition of_opt :: regex where
  "of_opt = Opt (lit ''of'')"

definition degrees_opt :: regex where
  "degrees_opt = Opt (Seq (lit ''degree'') (Opt (Chr (Lit CHR ''s''))))"

text \<open>
  The pattern table \<open>self.patterns\<close>, a dictionary in insertion order. The three
  characters outside ASCII are written as their UTF-8 bytes.
\<close>

definition patterns :: "(string \<times> regex list) list" where
  "patterns =
   [(''add'',
      [seq [Opt (alts [whats, lit ''calculate'', lit ''compute'']), ws, Group 1 num, ws,
            alts [lit ''+'', lit ''plus'', lit ''add''], ws, Group 2 num],
       seq [alts [lit ''add'', lit ''sum''], ws, Group 1 num, ws,
            alts [lit ''and'', lit ''to''], ws, Group 2 num]]),
    (''subtract'',
      [seq [Opt (alts [whats, lit ''calculate'']), ws, Group 1 num, ws,
            alts [lit ''-'', lit ''minus'', lit ''subtract''], ws, Group 2 num],
       seq [lit ''subtract'', ws, Group 1 num, ws, lit ''from'', ws, Group 2 num]]),
    (''multiply'',
      [seq [Opt (alts [whats, lit ''calculate'']), ws, Group 1 num, ws,
            alts [lit ''*'', lit [CHR 0xC3, CHR 0x97], lit ''times'', lit ''multiply''], ws,
            Group 2 num],
       seq [lit ''multiply'', ws, Group 1 num, ws, alts [lit ''by'', lit ''and''], ws,
            Group 2 num]]),
    (''divide'',
      [seq [Opt (alts [whats, lit ''calculate'']), ws, Group 1 num, ws,
            alts [lit ''/'', lit [CHR 0xC3, CHR 0xB7], lit ''divided by'', lit ''divide''], ws,
            Group 2 num],
       seq [lit ''divide'', ws, Group 1 num, ws, lit ''by'', ws, Group 2 num]]),
    (''power'',
      [seq [Group 1 num, ws, alts [lit ''to the power of'', lit ''raised to'', lit ''power''],
            ws, Group 2 num],
       seq [Group 1 num, ws, lit ''**'', ws, Group 2 num]]),
    (''square'',
      [seq [Group 1 num, ws, lit ''squared''],
       seq [lit ''square'', ws, of_opt, ws, Group 1 num]]),
    (''cube'',
      [seq [Group 1 num, ws, lit ''cubed''],
       seq [lit ''cube'', ws, of_opt, ws, Group 1 num]]),
    (''sqrt'',
      [seq [alts [lit ''square root'', lit ''sqrt''], ws, of_opt, ws, Group 1 num],
       seq [lit [CHR 0xE2, CHR 0x88, CHR 0x9A], ws, Group 1 num]]),
    (''cbrt'',
      [seq [alts [lit ''cube root'', lit ''cbrt''], ws, of_opt, ws, Group 1 num]]),
    (''sin'',
      [seq [alts [lit ''sin'', lit ''sine''], ws, of_opt, ws, Group 1 num, ws, degrees_opt]]),
    (''cos'',
      [seq [alts [lit ''cos'', lit ''cosine''], ws, of_opt, ws, Group 1 num, ws, degrees_opt]]),
    (''tan'',
      [seq [alts [lit ''tan'', lit ''tangent''], ws, of_opt, ws, Group 1 num, ws, degrees_opt]]),
    (''log'',
      [seq [alts [lit ''log'', lit ''logarithm''], ws, of_opt, ws, Group 1 num]]),
    (''ln'',
      [seq [alts [lit ''ln'', lit ''natural log''], ws, of_opt, ws, Group 1 num]]),
    (''factorial'',
      [seq [Group 1 int_num, ws, lit ''factorial''],
       seq [lit ''factorial'', ws, of_opt, ws, Group 1 int_num]])]"

section \<open>What a pattern can match and capture\<close>

text \<open>
  The language of a pattern: the strings a match can consume. Capture groups do not change
  it.
\<close>

fun lang :: "regex \<Rightarrow> string set" where
  "lang (Chr c) = {[x] | x. cmatch c x}"
| "lang Eps = {[]}"
| "lang (Seq a b) = {u @ v | u v. u \<in> lang a \<and> v \<in> lang b}"
| "lang (Alt a b) = lang a \<union> lang b"
| "lang (Opt a) = insert [] (lang a)"
| "lang (Star c) = {w. list_all (cmatch c) w}"
| "lang (Plus c) = {w. w \<noteq> [] \<and> list_all (cmatch c) w}"
| "lang (Group i a) = lang a"

text \<open>The capture groups of a pattern with their bodies.\<close>

fun groups_in :: "regex \<Rightarrow> (nat \<times> regex) list" where
  "groups_in (Group i a) = (i, a) # groups_in a"
| "groups_in (Seq a b) = groups_in a @ groups_in b"
| "groups_in (Alt a b) = groups_in a @ groups_in b"
| "groups_in (Opt a) = groups_in a"
| "groups_in r = []"

text \<open>The groups that take part in every match of a pattern.\<close>

fun always_set :: "regex \<Rightarrow> nat list" where
  "always_set (Group i a) = i # always_set a"
| "always_set (Seq a b) = always_set a @ always_set b"
| "always_set (Alt a b) = filter (\<lambda>i. i \<in> set (always_set b)) (always_set a)"
| "always_set r = []"

text \<open>
  An unsigned decimal numeral, the shape of \<open>\d+\.?\d*\<close>: digits, then nothing or a point
  and digits. An unsigned integer numeral, the shape of \<open>\d+\<close>.
\<close>

definition unsigned_decimal :: "string \<Rightarrow> bool" where
  "unsigned_decimal g =
     (let ip = takeWhile is_digit g; r = dropWhile is_digit g in
      ip \<noteq> [] \<and> (r = [] \<or> hd r = CHR ''.'' \<and> list_all is_digit (tl r)))"

definition unsigned_integer :: "string \<Rightarrow> bool" where
  "unsigned_integer g = (g \<noteq> [] \<and> list_all is_digit g)"

text \<open>
  A well-formed pattern of the table: groups numbered 1 to n, each in every match, each
  with the body \<open>\d+\.?\d*\<close> or \<open>\d+\<close>.
\<close>

definition table_pattern :: "regex \<Rightarrow> bool" where
  "table_pattern p =
     (list_all (\<lambda>(i, b). b = num \<or> b = int_num) (groups_in p) \<and>
      list_all (\<lambda>i. i \<in> set (always_set p)) [1..<Suc (group_count p)])"


section \<open>Natural-language parser (src/parsers/natural\_language\_parser.py)\<close>

text \<open>
  \<open>float(g)\<close> on a decimal numeral: an optional sign, digits, and an optional fraction
  (\<open>5\<close>, \<open>5.\<close>, \<open>5.25\<close>, \<open>.5\<close>). Every group of the table captures such a string;
  on anything else the model raises the \<open>ValueError\<close> of a string that is no number.
\<close>

definition digit_val :: "char \<Rightarrow> int" where
  "digit_val c = of_char c - 48"

definition digits_val :: "string \<Rightarrow> int" where
  "digits_val ds = foldl (\<lambda>acc c. 10 * acc + digit_val c) 0 ds"

definition unsigned_float :: "string \<Rightarrow> real option" where
  "unsigned_float u =
     (let ip = takeWhile is_digit u; r = dropWhile is_digit u in
      case r of
        [] \<Rightarrow> if ip = [] then None else Some (of_int (digits_val ip))
      | c # fp \<Rightarrow>
          if c = CHR ''.'' \<and> list_all is_digit fp \<and> (ip \<noteq> [] \<or> fp \<noteq> [])
          then Some (of_int (digits_val ip) + of_int (digits_val fp) / 10 ^ length fp)
          else None)"

definition py_float :: "string \<Rightarrow> py_error + pynum" where
  "py_float g =
     (let (neg, u) =
            (case g of
               [] \<Rightarrow> (False, g)
             | c # t \<Rightarrow> if c = CHR ''-'' then (True, t)
                         else if c = CHR ''+'' then (False, t) else (False, g))
      in case unsigned_float u of
           None \<Rightarrow>
             Inl (ValueError
                    (''could not convert string to float: '' @ [CHR 0x27] @ g @ [CHR 0x27]))
         | Some v \<Rightarrow> Inr (PyFloat (if neg then - v else v)))"

text \<open>
  \<open>[float(g) for g in match.groups() if g]\<close>: a group that is \<open>None\<close> or empty is
  skipped; the first failing conversion raises.
\<close>

fun floats :: "string option list \<Rightarrow> py_error + pynum list" where
  "floats [] = Inr []"
| "floats (None # gs) = floats gs"
| "floats (Some g # gs) =
     (if g = [] then floats gs
      else case py_float g of
             Inl e \<Rightarrow> Inl e
           | Inr x \<Rightarrow> (case floats gs of Inl e \<Rightarrow> Inl e | Inr xs \<Rightarrow> Inr (x # xs)))"

definition handle_special_cases :: "string \<Rightarrow> pynum list \<Rightarrow> pynum list" where
  "handle_special_cases op ops =
     (if op = ''square'' \<and> length ops = 1 then [ops ! 0, PyInt 2]
      else if op = ''cube'' \<and> length ops = 1 then [ops ! 0, PyInt 3]
      else ops)"

text \<open>
  The two loops of \<open>parse\<close>: over the patterns of one operation, and over the operations.
  The first pattern that matches decides; \<open>None\<close> means that none matched. An exception of
  the conversion leaves the loops at once.
\<close>

fun parse_patterns ::
  "string \<Rightarrow> string \<Rightarrow> string \<Rightarrow> regex list \<Rightarrow> (py_error + parsed_request) option" where
  "parse_patterns input_text text_lower op [] = None"
| "parse_patterns input_text text_lower op (p # ps) =
     (case re_search p text_lower of
        None \<Rightarrow> parse_patterns input_text text_lower op ps
      | Some gs \<Rightarrow>
          Some (case floats gs of
                  Inl e \<Rightarrow> Inl e
                | Inr xs \<Rightarrow>
                    Inr \<lparr>operation = op, operands = handle_special_cases op xs,
                         original_text = input_text\<rparr>))"

fun parse_operations ::
  "string \<Rightarrow> string \<Rightarrow> (string \<times> regex list) list \<Rightarrow> py_error + parsed_request option" where
  "parse_operations input_text text_lower [] = Inr None"
| "parse_operations input_text text_lower ((op, ps) # rest) =
     (case parse_patterns input_text text_lower op ps of
        None \<Rightarrow> parse_operations input_text text_lower rest
      | Some (Inl e) \<Rightarrow> Inl e
      | Some (Inr pd) \<Rightarrow> Inr (Some pd))"

definition parse :: "string \<Rightarrow> py_error + parsed_request option" where
  "parse input_text = parse_operations input_text (lower input_text) patterns"

definition can_handle :: "string \<Rightarrow> bool" where
  "can_handle input_text =
     (\<exists>(op, ps) \<in> set patterns. \<exists>p \<in> set ps. re_search p (lower input_text) \<noteq> None)"

section \<open>Input normalizer (src/src/input\_processor.py)\<close>

text \<open>\<open>re.sub(r'\s+', ' ', text)\<close>: every run of white space becomes one space.\<close>

function collapse_spaces :: "string \<Rightarrow> string" where
  "collapse_spaces [] = []"
| "collapse_spaces (x # xs) =
     (if is_space x then CHR '' '' # collapse_spaces (dropWhile is_space xs)
      else x # collapse_spaces xs)"
  by pat_completeness auto
termination
  by (relation "measure length") (auto simp: length_dropWhile_le less_Suc_eq_le)

definition clean :: "string \<Rightarrow> string" where
  "clean text = collapse_spaces (strip text)"

definition validate :: "string \<Rightarrow> bool" where
  "validate text = (if text = [] then False else if length text < 1 then False else True)"

text \<open>\<open>process\<close> returns \<open>None\<close> for an input it rejects.\<close>

definition process :: "string \<Rightarrow> string option" where
  "process raw_input =
     (if raw_input = [] then None
      else let cleaned = clean raw_input in
           if \<not> validate cleaned then None else Some cleaned)"

section \<open>Rendering numbers\<close>

text \<open>
  What the interpreter contributes to rendering. \<open>float_repr\<close> is \<open>str\<close> on a float that
  is not a whole number below \<open>10^16\<close> (shortest round-trip digits, exponent notation) and
  \<open>float_round\<close> is \<open>round(x, ndigits)\<close>; neither is a function of the real number alone,
  so both are parameters. \<open>int_max_str_digits\<close> is \<open>sys.get_int_max_str_digits()\<close>:
  converting an integer with more decimal digits to a string raises \<open>ValueError\<close>, and
  \<open>0\<close> switches the limit off. CPython starts with 4300.
\<close>

record interp =
  float_repr :: "real \<Rightarrow> string"
  float_round :: "real \<Rightarrow> nat \<Rightarrow> real"
  int_max_str_digits :: nat

definition cpython :: "(real \<Rightarrow> string) \<Rightarrow> (real \<Rightarrow> nat \<Rightarrow> real) \<Rightarrow> interp" where
  "cpython repr rnd = \<lparr>float_repr = repr, float_round = rnd, int_max_str_digits = 4300\<rparr>"

fun str_nat :: "nat \<Rightarrow> string" where
  "str_nat n =
     (if n < 10 then [''0123456789'' ! n]
      else str_nat (n div 10) @ [''0123456789'' ! (n mod 10)])"

definition str_int :: "int \<Rightarrow> string" where
  "str_int i = (if i < 0 then CHR ''-'' # str_nat (nat (- i)) else str_nat (nat i))"

definition int_limit_message :: "nat \<Rightarrow> string" where
  "int_limit_message limit =
     ''Exceeds the limit ('' @ str_nat limit @ '' digits) for integer string conversion; '' @
     ''use sys.set_int_max_str_digits() to increase the limit''"

text \<open>
  \<open>str(i)\<close> of an integer: more than \<open>int_max_str_digits\<close> decimal digits, that is
  \<open>10 ^ int_max_str_digits \<le> \<bar>i\<bar>\<close>, raise.
\<close>

definition py_str_int :: "interp \<Rightarrow> int \<Rightarrow> py_error + string" where
  "py_str_int io i =
     (if int_max_str_digits io \<noteq> 0 \<and> 10 ^ int_max_str_digits io \<le> \<bar>i\<bar>
      then Inl (ValueError (int_limit_message (int_max_str_digits io)))
      else Inr (str_int i))"

text \<open>\<open>str(x)\<close> of a float that is a whole number below \<open>10^16\<close> ends in \<open>.0\<close>.\<close>

definition py_str_float :: "interp \<Rightarrow> real \<Rightarrow> string" where
  "py_str_float io x =
     (if x = of_int \<lfloor>x\<rfloor> \<and> \<bar>x\<bar> < 10 ^ 16 then str_int \<lfloor>x\<rfloor> @ ''.0'' else float_repr io x)"

fun py_str :: "interp \<Rightarrow> pynum \<Rightarrow> py_error + string" where
  "py_str io (PyInt i) = py_str_int io i"
| "py_str io (PyFloat x) = Inr (py_str_float io x)"

definition rstrip :: "char \<Rightarrow> string \<Rightarrow> string" where
  "rstrip c s = rev (dropWhile (\<lambda>x. x = c) (rev s))"

section \<open>Formatter (src/src/formatters.py)\<close>

definition nl :: string where
  "nl = [CHR 0x0A]"

definition dq :: string where
  "dq = [CHR 0x22]"

text \<open>The bytes of the bullet and of the rule character as the source file has them.\<close>

definition bullet :: string where
  "bullet = [CHR 0xC3, CHR 0xA2, CHR 0xE2, CHR 0x82, CHR 0xAC, CHR 0xC2, CHR 0xA2]"

definition dash :: string where
  "dash = [CHR 0xC3, CHR 0xA2, CHR 0xE2, CHR 0x80, CHR 0x9D, CHR 0xE2, CHR 0x82, CHR 0xAC]"

text \<open>
  \<open>_format_number\<close>. A whole float goes through \<open>str(int(number))\<close>; a float is below
  \<open>1.8 * 10^308\<close>, so that integer is far below the conversion limit. Everything else,
  an \<open>int\<close> included, goes through \<open>str(round(number, 6))\<close> and loses its trailing zeros
  and then a trailing point; \<open>round\<close> leaves an \<open>int\<close> as it is.
\<close>

fun format_number :: "interp \<Rightarrow> pynum \<Rightarrow> py_error + string" where
  "format_number io (PyFloat x) =
     (if x = of_int \<lfloor>x\<rfloor> then Inr (str_int \<lfloor>x\<rfloor>)
      else Inr (rstrip CHR ''.'' (rstrip CHR ''0'' (py_str_float io (float_round io x 6)))))"
| "format_number io (PyInt i) =
     map_sum id (\<lambda>s. rstrip CHR ''.'' (rstrip CHR ''0'' s)) (py_str_int io i)"

text \<open>\<open>format_result\<close>; the result of a calculation is a number, never \<open>None\<close>.\<close>

definition format_result :: "interp \<Rightarrow> pynum \<Rightarrow> string \<Rightarrow> py_error + string" where
  "format_result io res q = map_sum id (\<lambda>s. ''The answer is '' @ s) (format_number io res)"

definition format_error :: "string \<Rightarrow> string" where
  "format_error error_message = ''Error: '' @ error_message"

definition format_help :: string where
  "format_help =
     concat
      [nl,
       ''Available Operations:'' @ nl,
       concat (replicate 21 dash) @ nl,
       nl,
       ''Basic Arithmetic:'' @ nl,
       ''  '' @ bullet @ '' Addition: '' @ dq @ ''What's 5 + 3?'' @ dq @ '', '' @ dq @ ''Add 10 and 20'' @ dq @ nl,
       ''  '' @ bullet @ '' Subtraction: '' @ dq @ ''10 minus 3'' @ dq @ '', '' @ dq @ ''What's 15 - 7?'' @ dq @ nl,
       ''  '' @ bullet @ '' Multiplication: '' @ dq @ ''5 times 4'' @ dq @ '', '' @ dq @ ''Multiply 6 and 7'' @ dq @ nl,
       ''  '' @ bullet @ '' Division: '' @ dq @ ''Divide 20 by 5'' @ dq @ '', '' @ dq @ ''What's 100 / 4?'' @ dq @ nl,
       nl,
       ''Powers and Roots:'' @ nl,
       ''  '' @ bullet @ '' Power: '' @ dq @ ''2 to the power of 3'' @ dq @ '', '' @ dq @ ''5 squared'' @ dq @ '', '' @ dq @ ''4 cubed'' @ dq @ nl,
       ''  '' @ bullet @ '' Square root: '' @ dq @ ''Square root of 81'' @ dq @ '', '' @ dq @ ''sqrt(144)'' @ dq @ nl,
       ''  '' @ bullet @ '' Nth root: '' @ dq @ ''Cube root of 27'' @ dq @ nl,
       nl,
       ''Trigonometry:'' @ nl,
       ''  '' @ bullet @ '' '' @ dq @ ''sin of 30 degrees'' @ dq @ '', '' @ dq @ ''cos(45)'' @ dq @ '', '' @ dq @ ''tan of 60'' @ dq @ nl,
       ''  '' @ bullet @ '' Note: Input angles in degrees'' @ nl,
       nl,
       ''Logarithms:'' @ nl,
       ''  '' @ bullet @ '' '' @ dq @ ''log of 100'' @ dq @ '', '' @ dq @ ''natural log of 10'' @ dq @ '', '' @ dq @ ''ln(5)'' @ dq @ nl,
       nl,
       ''Factorials:'' @ nl,
       ''  '' @ bullet @ '' '' @ dq @ ''5 factorial'' @ dq @ '', '' @ dq @ ''factorial of 7'' @ dq @ nl,
       nl,
       ''Special Commands:'' @ nl,
       ''  '' @ bullet @ '' 'history' - Show calculation history'' @ nl,
       ''  '' @ bullet @ '' 'clear' - Clear calculation history'' @ nl,
       ''  '' @ bullet @ '' 'help' - Show this help message'' @ nl,
       ''  '' @ bullet @ '' 'quit' - Exit the program'' @ nl]"

text \<open>
  \<open>format_history\<close>: the entries as \<open>get_history\<close> returns them, numbered from 1. Every
  entry of the store has its \<open>query\<close> and \<open>result\<close>.
\<close>

fun history_lines :: "nat \<Rightarrow> history_entry list \<Rightarrow> string" where
  "history_lines i [] = []"
| "history_lines i (entry # rest) =
     str_nat i @ ''. '' @ query entry @ '' = '' @ result entry @ nl @
     history_lines (Suc i) rest"

definition format_history :: "history_entry list \<Rightarrow> string" where
  "format_history h =
     (if h = [] then ''No calculation history yet.''
      else nl @ ''Calculation History:'' @ nl @ concat (replicate 60 dash) @ nl @
           history_lines 1 h)"

definition format_parsing_error :: string where
  "format_parsing_error =
     concat
      [nl,
       ''I couldn't understand that question. Please try again.'' @ nl,
       nl,
       ''Examples of questions I can answer:'' @ nl,
       ''  '' @ bullet @ '' '' @ dq @ ''What's 2 + 2?'' @ dq @ nl,
       ''  '' @ bullet @ '' '' @ dq @ ''Calculate square root of 144'' @ dq @ nl,
       ''  '' @ bullet @ '' '' @ dq @ ''What's 5 squared?'' @ dq @ nl,
       nl,
       ''Type 'help' for more examples.'' @ nl]"

section \<open>Agent orchestrator (src/src/agent.py)\<close>

text \<open>
  \<open>process_query\<close>. Parser, calculator, input processor and formatter have no state, so
  the state of the agent is its \<open>MemoryManager\<close>. The result is the returned string, or
  the exception that leaves \<open>process_query\<close>, and the store afterwards. The two \<open>try\<close>
  statements are the two \<open>case\<close> distinctions on \<open>parse\<close> and \<open>calculate\<close>; what follows
  them in the source (\<open>str(result)\<close>, \<open>memory.add\<close>, \<open>format_result\<close>) runs outside any
  handler.
\<close>

definition process_query ::
  "interp \<Rightarrow> memory_manager \<Rightarrow> string \<Rightarrow> string \<Rightarrow> (py_error + string) \<times> memory_manager" where
  "process_query io memory user_input now =
     (case process user_input of
        None \<Rightarrow> (Inr (format_error ''Invalid input''), memory)
      | Some processed_input \<Rightarrow>
          if lower processed_input = ''help'' then (Inr format_help, memory)
          else if lower processed_input = ''history''
            then (Inr (format_history (get_history memory (Some 10))), memory)
          else if lower processed_input = ''clear'' then (Inr ''History cleared!'', clear memory)
          else
            (case parse processed_input of
               Inl e \<Rightarrow> (Inr (format_error (''Parsing error: '' @ str_error e)), memory)
             | Inr None \<Rightarrow> (Inr format_parsing_error, memory)
             | Inr (Some parsed_data) \<Rightarrow>
                 (case calculate parsed_data of
                    Inl (ZeroDivisionError msg) \<Rightarrow>
                      (Inr (format_error ''Cannot divide by zero''), memory)
                  | Inl (ValueError msg) \<Rightarrow> (Inr (format_error msg), memory)
                  | Inl e \<Rightarrow>
                      (Inr (format_error (''Calculation error: '' @ str_error e)), memory)
                  | Inr res \<Rightarrow>
                      (case py_str io res of
                         Inl e \<Rightarrow> (Inl e, memory)
                       | Inr rendered \<Rightarrow>
                           (let memory' = add memory user_input rendered
                                            (operation parsed_data) now
                            in (format_result io res user_input, memory'))))))"

section \<open>Outcomes of a query\<close>

text \<open>
  Two observations on a query, read off the branches of \<open>process_query\<close>: whether it is
  the built-in \<open>clear\<close> command, and, when it is a calculation that parses and evaluates,
  the parsed request with the result.
\<close>

definition is_clear_command :: "string \<Rightarrow> bool" where
  "is_clear_command user_input =
     (case process user_input of
        None \<Rightarrow> False
      | Some processed_input \<Rightarrow> lower processed_input = ''clear'')"

definition evaluation :: "string \<Rightarrow> (parsed_request \<times> pynum) option" where
  "evaluation user_input =
     (case process user_input of
        None \<Rightarrow> None
      | Some processed_input \<Rightarrow>
          if lower processed_input \<in> set [''help'', ''history'', ''clear''] then None
          else (case parse processed_input of
                  Inl e \<Rightarrow> None
                | Inr None \<Rightarrow> None
                | Inr (Some parsed_data) \<Rightarrow>
                    (case calculate parsed_data of
                       Inl e \<Rightarrow> None
                     | Inr res \<Rightarrow> Some (parsed_data, res))))"

text \<open>
  An interpreter for the examples with CPython's conversion limit; its float rendering
  beyond whole numbers is not reached in them.
\<close>

definition example_interp :: interp where
  "example_interp = cpython (\<lambda>x. ''?'') (\<lambda>x n. x)"

section \<open>Properties of the history store\<close>

lemma max_history_add [simp]: "max_history (add m q r ot now) = max_history m"
  by (simp add: add_def Let_def)

lemma max_history_clear [simp]: "max_history (clear m) = max_history m"
  by (simp add: clear_def)

lemma max_history_run_ops [simp]: "max_history (run_ops m ops) = max_history m"
  unfolding run_ops_def
proof (induction ops arbitrary: m)
  case Nil
  show ?case by simp
next
  case (Cons x xs)
  show ?case by (cases x) (simp_all add: Cons.IH)
qed

lemma history_add:
  "history (add m q r ot now) =
     (let h = history m @ [\<lparr>query = q, result = r, operation_type = ot, timestamp = now\<rparr>]
      in if int (length h) > max_history m then tl h else h)"
  by (simp add: add_def Let_def)

text \<open>
  Entries dropped from the front of the log stay dropped: later inserts only append.
\<close>

lemma inserted_drop:
  "k \<le> length ys \<and> n \<le> length ys - k \<Longrightarrow>
     drop (length (inserted (drop k ys) xs) - n) (inserted (drop k ys) xs) =
     drop (length (inserted ys xs) - n) (inserted ys xs)"
proof (induction xs arbitrary: ys)
  case Nil
  then show ?case by auto
next
  case (Cons y xs)
  show ?case
  proof (cases y)
    case Clear
    then show ?thesis by simp
  next
    case (Record q r ot now)
    let ?f = "\<lparr>query = q, result = r, operation_type = ot, timestamp = now\<rparr>"
    have "drop k ys @ [?f] = drop k (ys @ [?f])"
      using Cons.prems by auto
    moreover have "k \<le> length (ys @ [?f]) \<and> n \<le> length (ys @ [?f]) - k"
      using Cons.prems by auto
    ultimately show ?thesis
      using Cons.IH [of "ys @ [?f]"] Record by simp
  qed
qed

text \<open>
  The store always holds the newest entries of the unbounded log, as many as fit. The
  starting store may hold anything within its capacity.
\<close>

lemma history_run_ops_from:
  assumes "0 \<le> max_history m" and "int (length (history m)) \<le> max_history m"
  shows "history (run_ops m ops) =
           drop (length (inserted (history m) ops) - nat (max_history m))
                (inserted (history m) ops)"
  using assms
proof (induction ops arbitrary: m)
  case Nil
  then show ?case by (simp add: run_ops_def)
next
  case (Cons x xs)
  show ?case
  proof (cases x)
    case Clear
    have "history (run_ops (clear m) xs) =
            drop (length (inserted (history (clear m)) xs) - nat (max_history (clear m)))
                 (inserted (history (clear m)) xs)"
      using Cons.prems by (intro Cons.IH) (simp_all add: clear_def)
    then show ?thesis
      using Clear by (simp add: run_ops_def clear_def)
  next
    case (Record q r ot now)
    let ?e = "\<lparr>query = q, result = r, operation_type = ot, timestamp = now\<rparr>"
    let ?m = "add m q r ot now"
    have len: "int (length (history ?m)) \<le> max_history ?m"
      using Cons.prems by (auto simp: history_add Let_def)
    have ih: "history (run_ops ?m xs) =
            drop (length (inserted (history ?m) xs) - nat (max_history ?m))
                 (inserted (history ?m) xs)"
      using Cons.prems len by (intro Cons.IH) simp_all
    show ?thesis
    proof (cases "int (length (history m @ [?e])) > max_history m")
      case True
      then have h: "history ?m = drop 1 (history m @ [?e])"
        by (simp add: history_add Let_def drop_Suc del: drop_append tl_append2)
      have "1 \<le> length (history m @ [?e]) \<and>
            nat (max_history m) \<le> length (history m @ [?e]) - 1"
        using True Cons.prems by auto
      from inserted_drop [OF this] show ?thesis
        using ih h Record by (simp add: run_ops_def)
    next
      case False
      then have h: "history ?m = history m @ [?e]"
        by (simp add: history_add Let_def)
      show ?thesis
        using ih h Record by (simp add: run_ops_def)
    qed
  qed
qed

lemma inserted_all_records:
  "list_all (\<lambda>x. x \<noteq> Clear) ops \<Longrightarrow> inserted acc ops = acc @ map (the \<circ> entry_of) ops"
proof (induction ops arbitrary: acc)
  case Nil
  show ?case by simp
next
  case (Cons x xs)
  then show ?case by (cases x) simp_all
qed

text \<open>
  C1. Bounded FIFO history. For a capacity \<open>mh\<close> (a count, so not negative) and every
  sequence \<open>ops\<close> of record and clear calls on a fresh store:
  the length never exceeds \<open>mh\<close>;
  the store is the insertion-ordered log since the last clear with only its oldest
  entries missing (the newest \<open>mh\<close> remain);
  one insert into a store within capacity appends, and when that would exceed the capacity
  it removes exactly the head of the list, the single oldest entry;
  and \<open>mh + k\<close> inserts with \<open>k \<ge> 1\<close> leave exactly \<open>mh\<close> entries, the last
  \<open>mh\<close> inserted, in insertion order.
\<close>

theorem C1_history_bounded_fifo:
  assumes "0 \<le> mh"
  shows "int (length (history (run_ops (MemoryManager mh) ops))) \<le> mh \<and>
         history (run_ops (MemoryManager mh) ops) =
           drop (length (inserted [] ops) - nat mh) (inserted [] ops) \<and>
         (\<forall>m q r ot now. max_history m = mh \<and> int (length (history m)) \<le> mh \<longrightarrow>
            history (add m q r ot now) =
              (if int (length (history m)) < mh
               then history m @ [\<lparr>query = q, result = r, operation_type = ot, timestamp = now\<rparr>]
               else tl (history m @
                      [\<lparr>query = q, result = r, operation_type = ot, timestamp = now\<rparr>]))) \<and>
         (\<forall>k. 1 \<le> k \<and> list_all (\<lambda>x. x \<noteq> Clear) ops \<and> length ops = nat mh + k \<longrightarrow>
            length (history (run_ops (MemoryManager mh) ops)) = nat mh \<and>
            history (run_ops (MemoryManager mh) ops) = map (the \<circ> entry_of) (drop k ops))"
proof -
  have start: "0 \<le> max_history (MemoryManager mh)"
    "int (length (history (MemoryManager mh))) \<le> max_history (MemoryManager mh)"
    using assms by (simp_all add: MemoryManager_def)
  have eq: "history (run_ops (MemoryManager mh) ops) =
           drop (length (inserted [] ops) - nat mh) (inserted [] ops)"
    using history_run_ops_from [OF start, of ops] by (simp add: MemoryManager_def)
  have bound: "int (length (history (run_ops (MemoryManager mh) ops))) \<le> mh"
    using assms by (simp add: eq)
  have step: "history (add m q r ot now) =
              (if int (length (history m)) < mh
               then history m @ [\<lparr>query = q, result = r, operation_type = ot, timestamp = now\<rparr>]
               else tl (history m @
                      [\<lparr>query = q, result = r, operation_type = ot, timestamp = now\<rparr>]))"
    if "max_history m = mh \<and> int (length (history m)) \<le> mh" for m q r ot now
    using that by (auto simp: history_add Let_def)
  have many: "length (history (run_ops (MemoryManager mh) ops)) = nat mh \<and>
            history (run_ops (MemoryManager mh) ops) = map (the \<circ> entry_of) (drop k ops)"
    if "1 \<le> k \<and> list_all (\<lambda>x. x \<noteq> Clear) ops \<and> length ops = nat mh + k" for k
    using that by (simp add: eq inserted_all_records drop_map)
  from bound eq step many show ?thesis by blast
qed

theorem C1_history_bounded_fifo_witness:
  "(0::int) \<le> 2 \<and>
   history (run_ops (MemoryManager 2)
      [Record ''1 + 1'' ''2.0'' ''add'' ''t1'', Record ''2 + 2'' ''4.0'' ''add'' ''t2'',
       Record ''3 + 3'' ''6.0'' ''add'' ''t3'']) =
     [\<lparr>query = ''2 + 2'', result = ''4.0'', operation_type = ''add'', timestamp = ''t2''\<rparr>,
      \<lparr>query = ''3 + 3'', result = ''6.0'', operation_type = ''add'', timestamp = ''t3''\<rparr>]"
proof -
  have h: "(0::int) \<le> 2" by simp
  have k: "(1::nat) \<le> 1 \<and>
     list_all (\<lambda>x. x \<noteq> Clear)
       [Record ''1 + 1'' ''2.0'' ''add'' ''t1'', Record ''2 + 2'' ''4.0'' ''add'' ''t2'',
        Record ''3 + 3'' ''6.0'' ''add'' ''t3''] \<and>
     length [Record ''1 + 1'' ''2.0'' ''add'' ''t1'', Record ''2 + 2'' ''4.0'' ''add'' ''t2'',
        Record ''3 + 3'' ''6.0'' ''add'' ''t3''] = nat 2 + 1"
    by simp
  from C1_history_bounded_fifo [OF h,
      of "[Record ''1 + 1'' ''2.0'' ''add'' ''t1'', Record ''2 + 2'' ''4.0'' ''add'' ''t2'',
           Record ''3 + 3'' ''6.0'' ''add'' ''t3'']"] k
  have "history (run_ops (MemoryManager 2)
      [Record ''1 + 1'' ''2.0'' ''add'' ''t1'', Record ''2 + 2'' ''4.0'' ''add'' ''t2'',
       Record ''3 + 3'' ''6.0'' ''add'' ''t3'']) =
     map (the \<circ> entry_of) (drop 1 [Record ''1 + 1'' ''2.0'' ''add'' ''t1'',
       Record ''2 + 2'' ''4.0'' ''add'' ''t2'', Record ''3 + 3'' ''6.0'' ''add'' ''t3''])"
    by blast
  then show ?thesis by simp
qed

text \<open>
  For a positive limit, \<open>get_history\<close> returns the newest entries first, at most
  \<open>limit\<close> of them.
\<close>

lemma get_history_positive:
  "0 < l \<Longrightarrow> get_history m (Some l) = take (nat l) (rev (history m))"
proof -
  assume l: "0 < l"
  have "nat (max 0 (int (length (history m)) - l)) = length (history m) - nat l"
    using l by auto
  then show ?thesis
    using l by (simp add: get_history_def slice_from_def take_rev)
qed

lemma get_history_None: "get_history m None = rev (history m)"
  by (simp add: get_history_def)

text \<open>
  C8. The claim: for every natural number \<open>limit\<close>, \<open>get_history(limit)\<close> returns at
  most \<open>limit\<close> entries, newest first. At \<open>limit = 0\<close> the slice \<open>_history[-0:]\<close> is
  the whole list, so a store with one entry returns that entry instead of nothing.
\<close>

theorem C8_get_history_limit_zero:
  "get_history (add (MemoryManager 100) ''2 + 2'' ''4.0'' ''add'' ''t1'') (Some 0) =
     [\<lparr>query = ''2 + 2'', result = ''4.0'', operation_type = ''add'', timestamp = ''t1''\<rparr>] \<and>
   \<not> length (get_history (add (MemoryManager 100) ''2 + 2'' ''4.0'' ''add'' ''t1'') (Some 0)) \<le> 0"
  by (simp add: get_history_def slice_from_def add_def MemoryManager_def)

section \<open>Properties of the operation evaluator\<close>

lemma calculate_add:
  "calculate \<lparr>operation = ''add'', operands = ops, original_text = t\<rparr> = calc_add ops"
  by (simp add: calculate_def supports_operation_def supported_operations_def)

lemma calculate_divide:
  "calculate \<lparr>operation = ''divide'', operands = ops, original_text = t\<rparr> = calc_divide ops"
  by (simp add: calculate_def supports_operation_def supported_operations_def)

lemma calculate_factorial:
  "calculate \<lparr>operation = ''factorial'', operands = ops, original_text = t\<rparr> =
     calc_factorial ops"
  by (simp add: calculate_def supports_operation_def supported_operations_def)

text \<open>The three power operations share one rule.\<close>

lemma calculate_power_family:
  "operation pd \<in> {''power'', ''square'', ''cube''} \<Longrightarrow>
     calculate pd = calc_power (operands pd)"
  by (auto simp: calculate_def supports_operation_def supported_operations_def)

text \<open>
  C3. Division: a second operand equal to zero raises \<open>ZeroDivisionError\<close> whatever the
  first operand is; a second operand other than zero gives the quotient as a float; any
  number of operands other than two raises the arity \<open>ValueError\<close>.
\<close>

theorem C3_divide:
  "(\<forall>a z t. val z = 0 \<longrightarrow>
      calculate \<lparr>operation = ''divide'', operands = [a, z], original_text = t\<rparr> =
        Inl (ZeroDivisionError ''Cannot divide by zero'')) \<and>
   (\<forall>a b t. val b \<noteq> 0 \<longrightarrow>
      calculate \<lparr>operation = ''divide'', operands = [a, b], original_text = t\<rparr> =
        Inr (PyFloat (val a / val b))) \<and>
   (\<forall>ops t. length ops \<noteq> 2 \<longrightarrow>
      calculate \<lparr>operation = ''divide'', operands = ops, original_text = t\<rparr> =
        Inl (ValueError ''Division requires exactly 2 operands''))"
  by (simp add: calculate_divide calc_divide_def)

theorem C3_divide_witness:
  "calculate \<lparr>operation = ''divide'', operands = [PyFloat 7, PyFloat 0],
              original_text = ''7 / 0''\<rparr> =
     Inl (ZeroDivisionError ''Cannot divide by zero'') \<and>
   calculate \<lparr>operation = ''divide'', operands = [PyFloat 10, PyFloat 4],
              original_text = ''10 / 4''\<rparr> = Inr (PyFloat (5 / 2)) \<and>
   calculate \<lparr>operation = ''divide'', operands = [PyFloat 10], original_text = ''10''\<rparr> =
     Inl (ValueError ''Division requires exactly 2 operands'')"
proof -
  have z: "val (PyFloat 0) = 0" and nz: "val (PyFloat 4) \<noteq> 0"
    and ar: "length [PyFloat 10] \<noteq> 2"
    by simp_all
  from C3_divide z nz ar show ?thesis by fastforce
qed



section \<open>Properties of the pattern matcher\<close>

text \<open>
  The matcher consumes a string of the pattern's language, records for each group a string
  of the group's language, never forgets a group, and sets every group that lies on all
  paths through the pattern.
\<close>

lemma star_rests_sound:
  "s' \<in> set (star_rests c s) \<Longrightarrow> \<exists>w. s = w @ s' \<and> list_all (cmatch c) w"
proof (induction s)
  case Nil
  then show ?case by simp
next
  case (Cons x xs)
  show ?case
  proof (cases "s' = x # xs")
    case True
    then show ?thesis by simp
  next
    case False
    with Cons.prems have cx: "cmatch c x" and "s' \<in> set (star_rests c xs)"
      by (auto split: if_splits)
    then obtain w where "xs = w @ s'" "list_all (cmatch c) w"
      using Cons.IH by blast
    then have "x # xs = (x # w) @ s' \<and> list_all (cmatch c) (x # w)"
      using cx by simp
    then show ?thesis by blast
  qed
qed

lemma matches_sound:
  "(s', m') \<in> set (matches r s m) \<Longrightarrow> \<exists>w. s = w @ s' \<and> w \<in> lang r"
proof (induction r arbitrary: s m s' m')
  case (Chr c)
  then show ?case by (auto split: list.splits if_splits)
next
  case Eps
  then show ?case by simp
next
  case (Seq a b)
  from Seq.prems obtain s1 m1 where 1: "(s1, m1) \<in> set (matches a s m)"
    and 2: "(s', m') \<in> set (matches b s1 m1)"
    by auto
  from Seq.IH(1) [OF 1] obtain u where u: "s = u @ s1" "u \<in> lang a" by blast
  from Seq.IH(2) [OF 2] obtain v where v: "s1 = v @ s'" "v \<in> lang b" by blast
  have "s = (u @ v) @ s'" using u v by simp
  moreover have "u @ v \<in> lang (Seq a b)" using u v by auto
  ultimately show ?case by blast
next
  case (Alt a b)
  then show ?case by fastforce
next
  case (Opt a)
  then show ?case by fastforce
next
  case (Star c)
  then show ?case using star_rests_sound by fastforce
next
  case (Plus c)
  from Plus.prems obtain x xs where s: "s = x # xs" and cx: "cmatch c x"
    and "s' \<in> set (star_rests c xs)"
    by (auto split: list.splits if_splits)
  then obtain w where "xs = w @ s'" "list_all (cmatch c) w"
    using star_rests_sound by blast
  then have "s = (x # w) @ s' \<and> x # w \<in> lang (Plus c)"
    using s cx by simp
  then show ?case by blast
next
  case (Group i a)
  then show ?case by fastforce
qed

lemma matches_captures:
  assumes "(s', m') \<in> set (matches r s m)"
    and "\<forall>i g. m i = Some g \<longrightarrow> P g"
    and "\<forall>(i, b) \<in> set (groups_in r). \<forall>w \<in> lang b. P w"
  shows "\<forall>i g. m' i = Some g \<longrightarrow> P g"
  using assms
proof (induction r arbitrary: s m s' m')
  case (Chr c)
  then show ?case by (auto split: list.splits if_splits)
next
  case Eps
  then show ?case by simp
next
  case (Seq a b)
  from Seq.prems(1) obtain s1 m1 where 1: "(s1, m1) \<in> set (matches a s m)"
    and 2: "(s', m') \<in> set (matches b s1 m1)"
    by auto
  have "\<forall>i g. m1 i = Some g \<longrightarrow> P g"
    using Seq.IH(1) [OF 1 Seq.prems(2)] Seq.prems(3) by auto
  then show ?case
    using Seq.IH(2) [OF 2] Seq.prems(3) by auto
next
  case (Alt a b)
  from Alt.prems(1) have "(s', m') \<in> set (matches a s m) \<or> (s', m') \<in> set (matches b s m)"
    by auto
  then show ?case
  proof
    assume "(s', m') \<in> set (matches a s m)"
    from Alt.IH(1) [OF this Alt.prems(2)] Alt.prems(3) show ?thesis by auto
  next
    assume "(s', m') \<in> set (matches b s m)"
    from Alt.IH(2) [OF this Alt.prems(2)] Alt.prems(3) show ?thesis by auto
  qed
next
  case (Opt a)
  from Opt.prems(1) have "(s', m') \<in> set (matches a s m) \<or> m' = m"
    by auto
  then show ?case
  proof
    assume "(s', m') \<in> set (matches a s m)"
    from Opt.IH [OF this Opt.prems(2)] Opt.prems(3) show ?thesis by auto
  next
    assume "m' = m"
    then show ?thesis using Opt.prems(2) by simp
  qed
next
  case (Star c)
  then show ?case by auto
next
  case (Plus c)
  then show ?case by (auto split: list.splits if_splits)
next
  case (Group i a)
  from Group.prems(1) obtain m1 where 1: "(s', m1) \<in> set (matches a s m)"
    and m': "m' = m1(i \<mapsto> take (length s - length s') s)"
    by auto
  from matches_sound [OF 1] obtain w where w: "s = w @ s'" "w \<in> lang a" by blast
  then have "take (length s - length s') s = w" by simp
  moreover have "P w" using Group.prems(3) w by simp
  moreover have "\<forall>j g. m1 j = Some g \<longrightarrow> P g"
    using Group.IH [OF 1 Group.prems(2)] Group.prems(3) by auto
  ultimately show ?case using m' by auto
qed

lemma matches_dom:
  "(s', m') \<in> set (matches r s m) \<Longrightarrow> dom m \<union> set (always_set r) \<subseteq> dom m'"
proof (induction r arbitrary: s m s' m')
  case (Chr c)
  then show ?case by (auto split: list.splits if_splits)
next
  case Eps
  then show ?case by simp
next
  case (Seq a b)
  from Seq.prems obtain s1 m1 where 1: "(s1, m1) \<in> set (matches a s m)"
    and 2: "(s', m') \<in> set (matches b s1 m1)"
    by auto
  from Seq.IH(1) [OF 1] Seq.IH(2) [OF 2] show ?case
    by (simp only: always_set.simps set_append) blast
next
  case (Alt a b)
  from Alt.prems have "(s', m') \<in> set (matches a s m) \<or> (s', m') \<in> set (matches b s m)"
    by auto
  then show ?case
  proof
    assume "(s', m') \<in> set (matches a s m)"
    from Alt.IH(1) [OF this] show ?thesis
      by (simp only: always_set.simps set_filter) blast
  next
    assume "(s', m') \<in> set (matches b s m)"
    from Alt.IH(2) [OF this] show ?thesis
      by (simp only: always_set.simps set_filter) blast
  qed
next
  case (Opt a)
  from Opt.prems have "(s', m') \<in> set (matches a s m) \<or> m' = m"
    by auto
  then show ?case
  proof
    assume "(s', m') \<in> set (matches a s m)"
    from Opt.IH [OF this] show ?thesis by simp
  next
    assume "m' = m"
    then show ?thesis by simp
  qed
next
  case (Star c)
  then show ?case by auto
next
  case (Plus c)
  then show ?case by (auto split: list.splits if_splits)
next
  case (Group i a)
  from Group.prems obtain m1 where 1: "(s', m1) \<in> set (matches a s m)"
    and m': "m' = m1(i \<mapsto> take (length s - length s') s)"
    by auto
  from Group.IH [OF 1] m' show ?case by auto
qed

lemma search_caps_matches:
  "search_caps r s = Some m \<Longrightarrow> \<exists>s0 s'. (s', m) \<in> set (matches r s0 Map.empty)"
proof (induction s)
  case Nil
  then show ?case
    by (cases "matches r [] Map.empty") (auto split: prod.splits, metis list.set_intros(1))
next
  case (Cons x xs)
  show ?case
  proof (cases "matches r (x # xs) Map.empty")
    case Nil
    then show ?thesis using Cons by simp
  next
    case (Cons a list)
    then have "a = (fst a, m)" using Cons.prems by (cases a) simp
    then have "(fst a, m) \<in> set (matches r (x # xs) Map.empty)"
      using Cons by (metis list.set_intros(1))
    then show ?thesis by blast
  qed
qed

lemma re_search_groups:
  assumes "re_search p t = Some gs"
    and "\<forall>(i, b) \<in> set (groups_in p). \<forall>w \<in> lang b. P w"
    and "list_all (\<lambda>i. i \<in> set (always_set p)) [1..<Suc (group_count p)]"
  shows "length gs = group_count p \<and> list_all (\<lambda>g. \<exists>w. g = Some w \<and> P w) gs"
proof -
  from assms(1) obtain m where m: "search_caps p t = Some m"
    and gs: "gs = map m [1..<Suc (group_count p)]"
    by (auto simp: re_search_def)
  from search_caps_matches [OF m] obtain s0 s' where
    in_m: "(s', m) \<in> set (matches p s0 Map.empty)" by blast
  have cap: "\<forall>i g. m i = Some g \<longrightarrow> P g"
    using matches_captures [OF in_m _ assms(2)] by simp
  have dom: "set (always_set p) \<subseteq> dom m"
    using matches_dom [OF in_m] by simp
  have "\<exists>w. m i = Some w \<and> P w" if "i \<in> set [1..<Suc (group_count p)]" for i
  proof -
    from that assms(3) have "i \<in> set (always_set p)"
      unfolding list_all_iff by blast
    with dom obtain w where "m i = Some w" by blast
    with cap show ?thesis by blast
  qed
  then show ?thesis
    using gs by (simp add: list_all_iff)
qed

text \<open>
  The numerals of the table: what \<open>\d+\.?\d*\<close> and \<open>\d+\<close> consume, and what
  \<open>float\<close> makes of it.
\<close>

lemma lower_char_cases: "lower_char x = x \<or> lower_char x \<in> set ''abcdefghijklmnopqrstuvwxyz''"
proof (cases "map_of (zip ''ABCDEFGHIJKLMNOPQRSTUVWXYZ'' ''abcdefghijklmnopqrstuvwxyz'') x")
  case None
  then show ?thesis by (simp add: lower_char_def)
next
  case (Some l)
  then have "(x, l) \<in> set (zip ''ABCDEFGHIJKLMNOPQRSTUVWXYZ'' ''abcdefghijklmnopqrstuvwxyz'')"
    by (rule map_of_SomeD)
  then have "l \<in> set ''abcdefghijklmnopqrstuvwxyz''"
    by (rule set_zip_rightD)
  then show ?thesis using Some by (simp add: lower_char_def)
qed

lemma cmatch_dot: "cmatch (Lit CHR ''.'') x \<longleftrightarrow> x = CHR ''.''"
proof
  assume "cmatch (Lit CHR ''.'') x"
  then have "lower_char x = CHR ''.''" by (simp add: lower_char_def)
  with lower_char_cases [of x] show "x = CHR ''.''" by auto
next
  assume "x = CHR ''.''"
  then show "cmatch (Lit CHR ''.'') x" by simp
qed

lemma not_digit_dot: "\<not> is_digit CHR ''.''"
  by (simp add: is_digit_def)

lemma cmatch_Digit: "cmatch Digit = is_digit"
  by (rule ext) simp

lemma lang_num: "w \<in> lang num \<Longrightarrow> unsigned_decimal w"
proof -
  assume "w \<in> lang num"
  then obtain u v where w: "w = u @ v" and u: "u \<in> lang (Plus Digit)"
    and v: "v \<in> lang (Seq (Opt (Chr (Lit CHR ''.''))) (Star Digit))"
    unfolding num_def lang.simps(3) by blast
  from v obtain d f where vdf: "v = d @ f" and d: "d \<in> lang (Opt (Chr (Lit CHR ''.'')))"
    and f: "f \<in> lang (Star Digit)"
    unfolding lang.simps(3) by blast
  from u have u': "u \<noteq> []" "\<forall>x \<in> set u. is_digit x"
    by (simp_all add: cmatch_Digit list_all_iff)
  from f have f': "\<forall>x \<in> set f. is_digit x"
    by (simp add: cmatch_Digit list_all_iff)
  from d have "d = [] \<or> d = ''.''"
    by (auto simp: cmatch_dot simp del: cmatch.simps)
  then show ?thesis
  proof
    assume "d = []"
    then have "\<forall>x \<in> set w. is_digit x" "w \<noteq> []"
      using w vdf u' f' by auto
    then have tw: "takeWhile is_digit w = w" and dw: "dropWhile is_digit w = []"
      by simp_all
    show ?thesis
      unfolding unsigned_decimal_def Let_def tw dw using \<open>w \<noteq> []\<close> by simp
  next
    assume "d = ''.''"
    then have w': "w = u @ CHR ''.'' # f" using w vdf by simp
    have tw: "takeWhile is_digit w = u"
      unfolding w' using u' not_digit_dot by (simp add: takeWhile_tail)
    have dw: "dropWhile is_digit w = CHR ''.'' # f"
      unfolding w' using u' not_digit_dot by (simp add: dropWhile_append3)
    show ?thesis
      unfolding unsigned_decimal_def Let_def tw dw using u' f' by (simp add: list_all_iff)
  qed
qed

lemma lang_int_num: "w \<in> lang int_num \<Longrightarrow> unsigned_integer w"
  by (simp add: int_num_def unsigned_integer_def cmatch_Digit)

lemma unsigned_integer_decimal: "unsigned_integer w \<Longrightarrow> unsigned_decimal w"
proof -
  assume "unsigned_integer w"
  then have "w \<noteq> []" "\<forall>x \<in> set w. is_digit x"
    by (simp_all add: unsigned_integer_def list_all_iff)
  then have tw: "takeWhile is_digit w = w" and dw: "dropWhile is_digit w = []"
    by simp_all
  show ?thesis
    unfolding unsigned_decimal_def Let_def tw dw using \<open>w \<noteq> []\<close> by simp
qed

lemma digit_val_nonneg: "is_digit c \<Longrightarrow> 0 \<le> digit_val c"
  by (auto simp: is_digit_def digit_val_def)

lemma digits_val_nonneg:
  assumes "\<forall>c \<in> set ds. is_digit c"
  shows "0 \<le> digits_val ds"
proof -
  have "0 \<le> foldl (\<lambda>acc c. 10 * acc + digit_val c) a ds" if "0 \<le> a" for a
    using assms that
  proof (induction ds arbitrary: a)
    case Nil
    then show ?case by simp
  next
    case (Cons c ds)
    have "0 \<le> 10 * a + digit_val c"
      using Cons.prems digit_val_nonneg [of c] by simp
    then show ?case using Cons by simp
  qed
  then show ?thesis by (simp add: digits_val_def)
qed

lemma unsigned_decimal_float:
  assumes "unsigned_decimal g"
  shows "g \<noteq> [] \<and> (\<exists>v. 0 \<le> v \<and> py_float g = Inr (PyFloat v))"
proof -
  from assms have ip: "takeWhile is_digit g \<noteq> []"
    by (simp add: unsigned_decimal_def Let_def)
  then obtain c t where g: "g = c # t" and c: "is_digit c"
    by (cases g) (auto split: if_splits)
  from c have sign: "c \<noteq> CHR ''-''" "c \<noteq> CHR ''+''"
    by (auto simp: is_digit_def)
  have "\<exists>v. 0 \<le> v \<and> unsigned_float g = Some v"
  proof (cases "dropWhile is_digit g")
    case Nil
    have "unsigned_float g = Some (of_int (digits_val (takeWhile is_digit g)))"
      unfolding unsigned_float_def Let_def Nil using ip by simp
    moreover have "0 \<le> digits_val (takeWhile is_digit g)"
      by (rule digits_val_nonneg) (auto dest: set_takeWhileD)
    ultimately show ?thesis by simp
  next
    case (Cons d fp)
    with assms have dfp: "d = CHR ''.''" "list_all is_digit fp"
      by (simp_all add: unsigned_decimal_def Let_def)
    have "unsigned_float g =
            Some (of_int (digits_val (takeWhile is_digit g)) +
                  of_int (digits_val fp) / 10 ^ length fp)"
      unfolding unsigned_float_def Let_def Cons using ip dfp by simp
    moreover have "0 \<le> digits_val (takeWhile is_digit g)"
      by (rule digits_val_nonneg) (auto dest: set_takeWhileD)
    moreover have "\<forall>c \<in> set fp. is_digit c"
      using dfp by (simp add: list_all_iff)
    then have "0 \<le> digits_val fp"
      by (rule digits_val_nonneg)
    ultimately show ?thesis by simp
  qed
  then show ?thesis
    using g sign by (auto simp: py_float_def)
qed


lemma floats_all:
  assumes "list_all (\<lambda>g. \<exists>w. g = Some w \<and> w \<noteq> [] \<and> (\<exists>x. Q x \<and> py_float w = Inr x)) gs"
  shows "\<exists>xs. floats gs = Inr xs \<and> length xs = length gs \<and> list_all Q xs"
  using assms
proof (induction gs)
  case Nil
  then show ?case by simp
next
  case (Cons g gs)
  then obtain w x where g: "g = Some w" "w \<noteq> []" "Q x" "py_float w = Inr x"
    by auto
  from Cons obtain xs where "floats gs = Inr xs" "length xs = length gs" "list_all Q xs"
    by auto
  then show ?case using g by simp
qed

lemma parse_patterns_Some:
  "parse_patterns it low op ps = Some r \<Longrightarrow>
     \<exists>p \<in> set ps. \<exists>gs. re_search p low = Some gs \<and>
        r = (case floats gs of
               Inl e \<Rightarrow> Inl e
             | Inr xs \<Rightarrow> Inr \<lparr>operation = op, operands = handle_special_cases op xs,
                                original_text = it\<rparr>)"
proof (induction ps)
  case Nil
  then show ?case by simp
next
  case (Cons p ps)
  then show ?case by (cases "re_search p low") auto
qed

lemma parse_operations_result:
  "parse_operations it low tbl = res \<Longrightarrow> res \<noteq> Inr None \<Longrightarrow>
     \<exists>(op, ps) \<in> set tbl. \<exists>p \<in> set ps. \<exists>gs. re_search p low = Some gs \<and>
        res = (case floats gs of
                 Inl e \<Rightarrow> Inl e
               | Inr xs \<Rightarrow> Inr (Some \<lparr>operation = op, operands = handle_special_cases op xs,
                                      original_text = it\<rparr>))"
proof (induction tbl)
  case Nil
  then show ?case by simp
next
  case (Cons a tbl)
  obtain op ps where a: "a = (op, ps)" by (cases a)
  show ?case
  proof (cases "parse_patterns it low op ps")
    case None
    then show ?thesis using Cons a by auto
  next
    case (Some r)
    from parse_patterns_Some [OF Some] obtain p gs where p: "p \<in> set ps"
      and gs: "re_search p low = Some gs"
      and r: "r = (case floats gs of
               Inl e \<Rightarrow> Inl e
             | Inr xs \<Rightarrow> Inr \<lparr>operation = op, operands = handle_special_cases op xs,
                                original_text = it\<rparr>)"
      by blast
    have "res = (case floats gs of
                 Inl e \<Rightarrow> Inl e
               | Inr xs \<Rightarrow> Inr (Some \<lparr>operation = op, operands = handle_special_cases op xs,
                                      original_text = it\<rparr>))"
      using Cons.prems(1) Some r a by (auto split: sum.splits)
    then show ?thesis using p gs a by auto
  qed
qed

section \<open>Properties of the parser\<close>

lemma patterns_table: "list_all (\<lambda>(op, ps). list_all table_pattern ps) patterns"
  by code_simp


lemma patterns_square_cube:
  "list_all (\<lambda>(op, ps). op \<in> set [''square'', ''cube''] \<longrightarrow>
      list_all (\<lambda>p. group_count p = 1) ps) patterns"
  by code_simp

lemma table_pattern_groups:
  assumes "table_pattern p"
  shows "\<forall>(i, b) \<in> set (groups_in p). \<forall>w \<in> lang b. unsigned_decimal w"
proof -
  have "unsigned_decimal w" if "(i, b) \<in> set (groups_in p)" "w \<in> lang b" for i b w
  proof -
    from assms that(1) have "b = num \<or> b = int_num"
      by (auto simp: table_pattern_def list_all_iff)
    with that(2) show ?thesis
      using lang_num lang_int_num unsigned_integer_decimal by blast
  qed
  then show ?thesis by blast
qed


text \<open>
  What \<open>parse\<close> returns when a pattern matched: the operation of the first matching
  pattern, and as operands the floats of its groups, every one an unsigned decimal, after
  \<open>_handle_special_cases\<close>. The conversion never fails, so \<open>parse\<close> never raises.
\<close>

lemma parse_matched:
  assumes "parse text = res" and "res \<noteq> Inr None"
  shows "\<exists>op ps p gs xs.
           (op, ps) \<in> set patterns \<and> p \<in> set ps \<and> re_search p (lower text) = Some gs \<and>
           length gs = group_count p \<and>
           list_all (\<lambda>g. \<exists>w. g = Some w \<and> unsigned_decimal w) gs \<and>
           floats gs = Inr xs \<and> length xs = group_count p \<and>
           list_all (\<lambda>x. \<exists>v. 0 \<le> v \<and> x = PyFloat v) xs \<and>
           res = Inr (Some \<lparr>operation = op, operands = handle_special_cases op xs,
                            original_text = text\<rparr>)"
proof -
  from parse_operations_result [OF assms(1) [unfolded parse_def] assms(2)]
  obtain op ps p gs where tbl: "(op, ps) \<in> set patterns" and p: "p \<in> set ps"
    and gs: "re_search p (lower text) = Some gs"
    and res: "res = (case floats gs of
                 Inl e \<Rightarrow> Inl e
               | Inr xs \<Rightarrow> Inr (Some \<lparr>operation = op, operands = handle_special_cases op xs,
                                      original_text = text\<rparr>))"
    by blast
  from patterns_table tbl p have tp: "table_pattern p"
    by (auto simp: list_all_iff)
  then have always: "list_all (\<lambda>i. i \<in> set (always_set p)) [1..<Suc (group_count p)]"
    by (simp add: table_pattern_def)
  from re_search_groups [OF gs table_pattern_groups [OF tp] always]
  have len: "length gs = group_count p"
    and caps: "list_all (\<lambda>g. \<exists>w. g = Some w \<and> unsigned_decimal w) gs"
    by simp_all
  from caps have
    "list_all (\<lambda>g. \<exists>w. g = Some w \<and> w \<noteq> [] \<and>
        (\<exists>x. (\<exists>v. 0 \<le> v \<and> x = PyFloat v) \<and> py_float w = Inr x)) gs"
    unfolding list_all_iff using unsigned_decimal_float by blast
  from floats_all [OF this] obtain xs where xs: "floats gs = Inr xs" "length xs = length gs"
    "list_all (\<lambda>x. \<exists>v. 0 \<le> v \<and> x = PyFloat v) xs"
    by blast
  from res xs have "res = Inr (Some \<lparr>operation = op, operands = handle_special_cases op xs,
                            original_text = text\<rparr>)"
    by simp
  with tbl p gs len caps xs show ?thesis by (metis (no_types, lifting))
qed


section \<open>Large factorials\<close>

text \<open>\<open>2000!\<close> has more than 4300 decimal digits.\<close>

lemma fact_ge_power: "m ^ k * fact m \<le> (fact (m + k) :: nat)"
proof (induction k)
  case 0
  show ?case by simp
next
  case (Suc k)
  have "m ^ Suc k * fact m = m * (m ^ k * fact m)" by simp
  also have "\<dots> \<le> m * fact (m + k)" using Suc by simp
  also have "\<dots> \<le> Suc (m + k) * fact (m + k)"
    by (intro mult_le_mono) simp_all
  also have "\<dots> = fact (m + Suc k)" by simp
  finally show ?case .
qed

lemma fact_2000: "(10::int) ^ 4300 \<le> fact 2000"
proof -
  have a: "(10::nat) ^ 3 = 1000" and b: "(10::nat) ^ 2 = 100" by simp_all
  have e1: "(100::nat) + 900 = 1000" and e2: "(1000::nat) + 1000 = 2000" by simp_all
  have f1: "(1::nat) \<le> fact 100" by (rule fact_ge_1)
  have s0: "(100::nat) ^ 900 \<le> 100 ^ 900 * fact 100"
    using mult_le_mono2 [OF f1, of "100 ^ 900"] by (simp only: mult_1_right)
  have s1: "(100::nat) ^ 900 * fact 100 \<le> fact 1000"
    using fact_ge_power [of 100 900] by (simp only: e1)
  have s2: "(1000::nat) ^ 1000 * fact 1000 \<le> fact 2000"
    using fact_ge_power [of 1000 1000] by (simp only: e2)
  have "(100::nat) ^ 900 \<le> fact 1000"
    by (rule order_trans [OF s0 s1])
  then have "(1000::nat) ^ 1000 * 100 ^ 900 \<le> 1000 ^ 1000 * fact 1000"
    by (rule mult_le_mono2)
  then have s3: "(1000::nat) ^ 1000 * 100 ^ 900 \<le> fact 2000"
    by (rule order_trans [OF _ s2])
  have p: "(10::nat) ^ 4300 \<le> 10 ^ (3 * 1000 + 2 * 900)"
    by (rule power_increasing) simp_all
  have q: "(10::nat) ^ (3 * 1000 + 2 * 900) = 1000 ^ 1000 * 100 ^ 900"
    by (simp only: power_add power_mult a b)
  have "(10::nat) ^ 4300 \<le> fact 2000"
    using p s3 by (simp only: q)
  then have "int (10 ^ 4300) \<le> int (fact 2000)"
    by (rule iffD2 [OF of_nat_le_iff])
  then show ?thesis
    by (simp only: of_nat_power of_nat_numeral of_nat_fact)
qed

section \<open>Concrete queries\<close>

lemma parse_whats_25_17:
  "parse ''What's 25 + 17?'' =
     Inr (Some \<lparr>operation = ''add'', operands = [PyFloat 25, PyFloat 17],
                original_text = ''What's 25 + 17?''\<rparr>)"
  by code_simp

lemma parse_5_squared:
  "parse ''5 squared'' =
     Inr (Some \<lparr>operation = ''square'', operands = [PyFloat 5, PyInt 2],
                original_text = ''5 squared''\<rparr>)"
  by code_simp

lemma parse_hello_world: "parse ''hello world'' = Inr None"
  by code_simp



lemma parse_2000_factorial:
  "parse ''2000 factorial'' =
     Inr (Some \<lparr>operation = ''factorial'', operands = [PyFloat 2000],
                original_text = ''2000 factorial''\<rparr>)"
  by code_simp

lemma parse_10_by_0:
  "parse ''10 / 0'' =
     Inr (Some \<lparr>operation = ''divide'', operands = [PyFloat 10, PyFloat 0],
                original_text = ''10 / 0''\<rparr>)"
  by code_simp

lemma process_examples:
  "process ''What's 25 + 17?'' = Some ''What's 25 + 17?''"
  "process ''  What's   25 + 17? '' = Some ''What's 25 + 17?''"
  "process ''hello world'' = Some ''hello world''"
  "process ''2000 factorial'' = Some ''2000 factorial''"
  "process ''clear'' = Some ''clear''"
  "process ''10 / 0'' = Some ''10 / 0''"
  by code_simp+

lemma lower_examples:
  "lower ''What's 25 + 17?'' = ''what's 25 + 17?''"
  "lower ''hello world'' = ''hello world''"
  "lower ''2000 factorial'' = ''2000 factorial''"
  "lower ''clear'' = ''clear''"
  "lower ''10 / 0'' = ''10 / 0''"
  by code_simp+

lemma str_int_42: "str_int 42 = ''42''"
  by code_simp

lemma py_str_float_42: "py_str_float io 42 = ''42.0''"
  by (simp add: py_str_float_def str_int_42)

lemma format_result_42: "format_result io (PyFloat 42) q = Inr ''The answer is 42''"
  by (simp add: format_result_def str_int_42)

lemma calculate_25_17:
  "calculate \<lparr>operation = ''add'', operands = [PyFloat 25, PyFloat 17],
              original_text = ''What's 25 + 17?''\<rparr> = Inr (PyFloat 42)"
  by (simp add: calculate_add calc_add_def)

lemma process_query_25_17:
  "process_query io m ''What's 25 + 17?'' now =
     (Inr ''The answer is 42'', add m ''What's 25 + 17?'' ''42.0'' ''add'' now)"
  by (simp add: process_query_def process_examples lower_examples parse_whats_25_17
      calculate_25_17 py_str_float_42 format_result_42)

lemma process_query_hello_world:
  "process_query io m ''hello world'' now = (Inr format_parsing_error, m)"
  by (simp add: process_query_def process_examples lower_examples parse_hello_world)

lemma calculate_2000_factorial:
  "calculate \<lparr>operation = ''factorial'', operands = [PyFloat 2000],
              original_text = ''2000 factorial''\<rparr> = Inr (PyInt (fact 2000))"
  by (simp add: calculate_factorial calc_factorial_def)

lemma int_limit_message_4300:
  "int_limit_message 4300 =
     ''Exceeds the limit (4300 digits) for integer string conversion; '' @
     ''use sys.set_int_max_str_digits() to increase the limit''"
  by (simp add: int_limit_message_def)

lemma py_str_int_fact_2000:
  assumes "int_max_str_digits io = 4300"
  shows "py_str_int io (fact 2000) =
           Inl (ValueError (int_limit_message 4300))"
proof -
  have "(0::int) \<le> fact 2000" by (rule fact_ge_zero)
  then have "\<bar>fact 2000 :: int\<bar> = fact 2000" by (rule abs_of_nonneg)
  then have big: "(10::int) ^ 4300 \<le> \<bar>fact 2000\<bar>" using fact_2000 by (simp only:)
  have "(4300::nat) \<noteq> 0" by simp
  then have c: "(4300::nat) \<noteq> 0 \<and> (10::int) ^ 4300 \<le> \<bar>fact 2000\<bar>"
    using big by (rule conjI)
  show ?thesis
    unfolding py_str_int_def assms by (rule if_P [OF c])
qed

lemma process_query_2000_factorial:
  "int_max_str_digits io = 4300 \<Longrightarrow>
   process_query io m ''2000 factorial'' now =
     (Inl (ValueError (int_limit_message 4300)), m)"
  by (simp add: process_query_def process_examples lower_examples parse_2000_factorial
      calculate_2000_factorial py_str_int_fact_2000)

section \<open>Claims on the parser\<close>

text \<open>
  C2. The round trip of the example query: it parses to an addition of 25.0 and 17.0; that
  request evaluates to 42.0; the orchestrator answers and records it under the raw query
  with the rendered result \<open>42.0\<close>; and on a store that can hold an entry,
  \<open>get_history(1)\<close> then returns exactly that entry.
\<close>

theorem C2_round_trip:
  "parse ''What's 25 + 17?'' =
     Inr (Some \<lparr>operation = ''add'', operands = [PyFloat 25, PyFloat 17],
                original_text = ''What's 25 + 17?''\<rparr>) \<and>
   calculate \<lparr>operation = ''add'', operands = [PyFloat 25, PyFloat 17],
              original_text = ''What's 25 + 17?''\<rparr> = Inr (PyFloat 42) \<and>
   (\<forall>io m now.
      process_query io m ''What's 25 + 17?'' now =
        (Inr ''The answer is 42'', add m ''What's 25 + 17?'' ''42.0'' ''add'' now) \<and>
      (1 \<le> max_history m \<longrightarrow>
         get_history (add m ''What's 25 + 17?'' ''42.0'' ''add'' now) (Some 1) =
           [\<lparr>query = ''What's 25 + 17?'', result = ''42.0'', operation_type = ''add'',
              timestamp = now\<rparr>]))"
proof -
  have "get_history (add m q r ot now) (Some 1) =
          [\<lparr>query = q, result = r, operation_type = ot, timestamp = now\<rparr>]"
    if "1 \<le> max_history m" for m q r ot now
  proof -
    let ?e = "\<lparr>query = q, result = r, operation_type = ot, timestamp = now\<rparr>"
    have "\<exists>h. history (add m q r ot now) = h @ [?e]"
    proof (cases "int (length (history m @ [?e])) > max_history m")
      case True
      with that have "history m \<noteq> []" by auto
      then have "tl (history m @ [?e]) = tl (history m) @ [?e]" by simp
      then show ?thesis using True by (simp add: history_add Let_def)
    next
      case False
      then show ?thesis by (simp add: history_add Let_def)
    qed
    then obtain h where "history (add m q r ot now) = h @ [?e]" ..
    then show ?thesis
      using get_history_positive [of 1 "add m q r ot now"] by simp
  qed
  then show ?thesis
    using parse_whats_25_17 calculate_25_17 process_query_25_17 by blast
qed

theorem C2_round_trip_witness:
  "(1::int) \<le> max_history (MemoryManager 100) \<and>
   get_history (snd (process_query example_interp (MemoryManager 100)
                       ''What's 25 + 17?'' ''t1'')) (Some 1) =
     [\<lparr>query = ''What's 25 + 17?'', result = ''42.0'', operation_type = ''add'',
        timestamp = ''t1''\<rparr>]"
proof -
  have h: "(1::int) \<le> max_history (MemoryManager 100)"
    by (simp add: MemoryManager_def)
  from C2_round_trip have
    "process_query example_interp (MemoryManager 100) ''What's 25 + 17?'' ''t1'' =
        (Inr ''The answer is 42'',
         add (MemoryManager 100) ''What's 25 + 17?'' ''42.0'' ''add'' ''t1'')"
    and "1 \<le> max_history (MemoryManager 100) \<longrightarrow>
         get_history (add (MemoryManager 100) ''What's 25 + 17?'' ''42.0'' ''add'' ''t1'')
           (Some 1) =
           [\<lparr>query = ''What's 25 + 17?'', result = ''42.0'', operation_type = ''add'',
              timestamp = ''t1''\<rparr>]"
    by blast+
  with h show ?thesis by simp
qed

text \<open>
  C5. Whenever \<open>parse\<close> returns a request, its operation is that of a pattern of the
  table that matched, and its operands are the floats \<open>xs\<close> of that pattern's groups:
  rewritten to \<open>[x, 2]\<close> for \<open>square\<close> and to \<open>[x, 3]\<close> for \<open>cube\<close>, whose patterns
  capture exactly one operand, and unchanged for every other operation. A request of
  \<open>square\<close>, \<open>cube\<close> or \<open>power\<close> is evaluated by the power rule. In particular
  \<open>5 squared\<close> parses to the operands 5.0 and 2 and evaluates to 25.0.
\<close>

theorem C5_square_cube:
  "(\<forall>input_text pd. parse input_text = Inr (Some pd) \<longrightarrow>
      (\<exists>ps p gs xs.
         (operation pd, ps) \<in> set patterns \<and> p \<in> set ps \<and>
         re_search p (lower input_text) = Some gs \<and> floats gs = Inr xs \<and>
         (operation pd = ''square'' \<longrightarrow> length xs = 1 \<and> operands pd = [xs ! 0, PyInt 2]) \<and>
         (operation pd = ''cube'' \<longrightarrow> length xs = 1 \<and> operands pd = [xs ! 0, PyInt 3]) \<and>
         (operation pd \<noteq> ''square'' \<and> operation pd \<noteq> ''cube'' \<longrightarrow> operands pd = xs)) \<and>
      (operation pd \<in> {''power'', ''square'', ''cube''} \<longrightarrow>
         calculate pd = calc_power (operands pd))) \<and>
   parse ''5 squared'' =
     Inr (Some \<lparr>operation = ''square'', operands = [PyFloat 5, PyInt 2],
                original_text = ''5 squared''\<rparr>) \<and>
   calculate \<lparr>operation = ''square'', operands = [PyFloat 5, PyInt 2],
              original_text = ''5 squared''\<rparr> = Inr (PyFloat 25)"
proof -
  have gen: "\<exists>ps p gs xs.
         (operation pd, ps) \<in> set patterns \<and> p \<in> set ps \<and>
         re_search p (lower input_text) = Some gs \<and> floats gs = Inr xs \<and>
         (operation pd = ''square'' \<longrightarrow> length xs = 1 \<and> operands pd = [xs ! 0, PyInt 2]) \<and>
         (operation pd = ''cube'' \<longrightarrow> length xs = 1 \<and> operands pd = [xs ! 0, PyInt 3]) \<and>
         (operation pd \<noteq> ''square'' \<and> operation pd \<noteq> ''cube'' \<longrightarrow> operands pd = xs)"
    if "parse input_text = Inr (Some pd)" for input_text pd
  proof -
    from parse_matched [OF that] obtain op ps p gs xs where
      tbl: "(op, ps) \<in> set patterns" and p: "p \<in> set ps"
      and gs: "re_search p (lower input_text) = Some gs"
      and xs: "floats gs = Inr xs" "length xs = group_count p"
      and pd: "pd = \<lparr>operation = op, operands = handle_special_cases op xs,
                      original_text = input_text\<rparr>"
      by auto
    have one: "length xs = 1" if "op = ''square'' \<or> op = ''cube''"
    proof -
      from patterns_square_cube tbl p that have "group_count p = 1"
        by (auto simp: list_all_iff)
      with xs show ?thesis by simp
    qed
    have op: "operation pd = op" and ops: "operands pd = handle_special_cases op xs"
      using pd by simp_all
    have "(op = ''square'' \<longrightarrow> length xs = 1 \<and> operands pd = [xs ! 0, PyInt 2]) \<and>
         (op = ''cube'' \<longrightarrow> length xs = 1 \<and> operands pd = [xs ! 0, PyInt 3]) \<and>
         (op \<noteq> ''square'' \<and> op \<noteq> ''cube'' \<longrightarrow> operands pd = xs)"
      using one ops by (auto simp: handle_special_cases_def)
    with tbl p gs xs op show ?thesis by blast
  qed
  have "calculate \<lparr>operation = ''square'', operands = [PyFloat 5, PyInt 2],
              original_text = ''5 squared''\<rparr> = Inr (PyFloat 25)"
    by (simp add: calculate_power_family calc_power_def py_pow_def)
  with gen calculate_power_family parse_5_squared show ?thesis by blast
qed

theorem C5_square_cube_witness:
  "parse ''5 squared'' =
     Inr (Some \<lparr>operation = ''square'', operands = [PyFloat 5, PyInt 2],
                original_text = ''5 squared''\<rparr>) \<and>
   calculate \<lparr>operation = ''square'', operands = [PyFloat 5, PyInt 2],
              original_text = ''5 squared''\<rparr> =
     calc_power [PyFloat 5, PyInt 2] \<and>
   calc_power [PyFloat 5, PyInt 2] = Inr (PyFloat 25)"
proof -
  let ?pd = "\<lparr>operation = ''square'', operands = [PyFloat 5, PyInt 2],
               original_text = ''5 squared''\<rparr>"
  from C5_square_cube have p: "parse ''5 squared'' = Inr (Some ?pd)"
    and c: "calculate ?pd = Inr (PyFloat 25)"
    and "\<forall>input_text pd. parse input_text = Inr (Some pd) \<longrightarrow>
           (operation pd \<in> {''power'', ''square'', ''cube''} \<longrightarrow>
              calculate pd = calc_power (operands pd))"
    by blast+
  with p have "calculate ?pd = calc_power (operands ?pd)" by simp
  with p c show ?thesis by simp
qed






section \<open>Claims on the orchestrator\<close>

text \<open>
  Rendering the result of a successful calculation fails only for an integer beyond the
  conversion limit; once \<open>str(result)\<close> has succeeded, \<open>format_result\<close> succeeds.
\<close>

lemma py_str_Inl: "py_str io res = Inl e \<Longrightarrow> \<exists>n. res = PyInt n \<and> py_str_int io n = Inl e"
  by (cases res) simp_all

lemma format_result_after_str:
  "py_str io res = Inr rendered \<Longrightarrow> \<exists>resp. format_result io res q = Inr resp"
  by (cases res) (auto simp: format_result_def)

text \<open>
  The store after a query: emptied by the \<open>clear\<close> command, extended by one \<open>add\<close> when
  the query evaluates and its result renders, and otherwise the store before.
\<close>

lemma process_query_store:
  "snd (process_query io m user_input now) =
     (if is_clear_command user_input then clear m
      else case evaluation user_input of
             None \<Rightarrow> m
           | Some (pd, res) \<Rightarrow>
               (case py_str io res of
                  Inl e \<Rightarrow> m
                | Inr rendered \<Rightarrow> add m user_input rendered (operation pd) now))"
  by (auto simp: process_query_def is_clear_command_def evaluation_def Let_def
      split: option.splits sum.splits py_error.splits)

text \<open>
  The response to a query that does not evaluate is a string: each failure has its
  message. An exception leaves \<open>process_query\<close> only from the rendering of an integer
  result.
\<close>

lemma process_query_failures:
  "(process user_input = None \<longrightarrow>
      fst (process_query io m user_input now) = Inr (format_error ''Invalid input'')) \<and>
   (\<forall>pi. process user_input = Some pi \<and>
         lower pi \<notin> set [''help'', ''history'', ''clear''] \<longrightarrow>
      (parse pi = Inr None \<longrightarrow>
         fst (process_query io m user_input now) = Inr format_parsing_error) \<and>
      (\<forall>pd. parse pi = Inr (Some pd) \<longrightarrow>
         (\<forall>msg. calculate pd = Inl (ZeroDivisionError msg) \<longrightarrow>
            fst (process_query io m user_input now) =
              Inr (format_error ''Cannot divide by zero'')) \<and>
         (\<forall>msg. calculate pd = Inl (ValueError msg) \<longrightarrow>
            fst (process_query io m user_input now) = Inr (format_error msg)) \<and>
         (\<forall>msg. calculate pd = Inl (TypeError msg) \<longrightarrow>
            fst (process_query io m user_input now) =
              Inr (format_error (''Calculation error: '' @ msg)))))"
  by (auto simp: process_query_def)

lemma process_query_raises_only_on_rendering:
  assumes "fst (process_query io m user_input now) = Inl e"
  shows "\<exists>pd n. evaluation user_input = Some (pd, PyInt n) \<and> py_str_int io n = Inl e"
proof -
  from assms obtain pi pd res where pi: "process user_input = Some pi"
    and cmd: "lower pi \<noteq> ''help''" "lower pi \<noteq> ''history''" "lower pi \<noteq> ''clear''"
    and pd: "parse pi = Inr (Some pd)" and res: "calculate pd = Inr res"
    and r: "(case py_str io res of
               Inl e \<Rightarrow> (Inl e :: py_error + string)
             | Inr rendered \<Rightarrow> format_result io res user_input) = Inl e"
    by (auto simp: process_query_def Let_def
        split: option.splits sum.splits py_error.splits if_splits)
  have "py_str io res = Inl e"
  proof (cases "py_str io res")
    case (Inl e')
    with r show ?thesis by simp
  next
    case (Inr rendered)
    with format_result_after_str [OF Inr, of user_input] r show ?thesis by auto
  qed
  from py_str_Inl [OF this] obtain n where "res = PyInt n" "py_str_int io n = Inl e" by blast
  moreover have "evaluation user_input = Some (pd, res)"
    using pi cmd pd res by (simp add: evaluation_def)
  ultimately show ?thesis by blast
qed

lemma process_query_returns_without_limit:
  assumes "int_max_str_digits io = 0"
  shows "\<exists>response. fst (process_query io m user_input now) = Inr response"
proof (cases "fst (process_query io m user_input now)")
  case (Inl e)
  from process_query_raises_only_on_rendering [OF Inl] obtain n where "py_str_int io n = Inl e"
    by blast
  with assms show ?thesis by (simp add: py_str_int_def)
next
  case (Inr response)
  then show ?thesis by blast
qed

text \<open>
  C6. The claim: \<open>process_query\<close> returns a string for every input and never raises.
  With CPython's conversion limit, the query \<open>2000 factorial\<close> parses and evaluates to an
  integer of more than 4300 digits, and \<open>str(result)\<close>, which the source calls after its
  last handler, raises \<open>ValueError\<close>: the exception leaves \<open>process_query\<close>.
\<close>

theorem C6_process_query_raises:
  "process_query example_interp (MemoryManager 100) ''2000 factorial'' ''t1'' =
     (Inl (ValueError
             (''Exceeds the limit (4300 digits) for integer string conversion; '' @
              ''use sys.set_int_max_str_digits() to increase the limit'')),
      MemoryManager 100)"
proof -
  have "int_max_str_digits example_interp = 4300"
    by (simp add: example_interp_def cpython_def)
  then have "process_query example_interp (MemoryManager 100) ''2000 factorial'' ''t1'' =
     (Inl (ValueError (int_limit_message 4300)), MemoryManager 100)"
    by (rule process_query_2000_factorial)
  then show ?thesis by (simp only: int_limit_message_4300)
qed

text \<open>
  C7. The claim: for every query the store is modified only when evaluation succeeds. The
  query \<open>clear\<close> is no calculation, and it empties a store that holds an entry.
\<close>

theorem C7_clear_counterexample:
  "evaluation ''clear'' = None \<and>
   count (add (MemoryManager 100) ''2 + 2'' ''4.0'' ''add'' ''t1'') = 1 \<and>
   count (snd (process_query example_interp
                 (add (MemoryManager 100) ''2 + 2'' ''4.0'' ''add'' ''t1'')
                 ''clear'' ''t2'')) = 0"
  by (simp add: evaluation_def process_query_def process_examples lower_examples
      count_def clear_def add_def MemoryManager_def)

text \<open>
  C7, amended. For every query that is not the built-in \<open>clear\<close> command: when the query
  does not evaluate (invalid input, a \<open>help\<close> or \<open>history\<close> command, no pattern matched,
  or an error of the evaluator), the store is unchanged; when it evaluates and the result
  renders, the store is the result of exactly one \<open>add\<close>, which appends one entry whose
  query is the raw input, not the normalized text, and whose operation type is the
  operation of the parsed request, and then removes the oldest entry if the capacity is
  exceeded. The \<open>clear\<close> command empties the store.
\<close>

theorem C7_history_modified:
  "(\<not> is_clear_command user_input \<longrightarrow>
      (evaluation user_input = None \<longrightarrow>
         snd (process_query io m user_input now) = m) \<and>
      (\<forall>pd res rendered.
         evaluation user_input = Some (pd, res) \<and> py_str io res = Inr rendered \<longrightarrow>
           (\<exists>processed_input. process user_input = Some processed_input \<and>
              parse processed_input = Inr (Some pd) \<and> calculate pd = Inr res) \<and>
           snd (process_query io m user_input now) =
             add m user_input rendered (operation pd) now \<and>
           history (add m user_input rendered (operation pd) now) =
             (let h = history m @
                        [\<lparr>query = user_input, result = rendered,
                           operation_type = operation pd, timestamp = now\<rparr>]
              in if int (length h) > max_history m then tl h else h))) \<and>
   (is_clear_command user_input \<longrightarrow>
      snd (process_query io m user_input now) = clear m)"
proof -
  have parsed: "\<exists>processed_input. process user_input = Some processed_input \<and>
              parse processed_input = Inr (Some pd) \<and> calculate pd = Inr res"
    if "evaluation user_input = Some (pd, res)" for pd res
    using that
    by (auto simp: evaluation_def split: option.splits sum.splits if_splits)
  show ?thesis
    using parsed by (auto simp: process_query_store history_add)
qed

theorem C7_history_modified_witness:
  "\<not> is_clear_command ''  What's   25 + 17? '' \<and>
   evaluation ''  What's   25 + 17? '' =
     Some (\<lparr>operation = ''add'', operands = [PyFloat 25, PyFloat 17],
            original_text = ''What's 25 + 17?''\<rparr>, PyFloat 42) \<and>
   py_str example_interp (PyFloat 42) = Inr ''42.0'' \<and>
   snd (process_query example_interp (MemoryManager 100) ''  What's   25 + 17? '' ''t1'') =
     add (MemoryManager 100) ''  What's   25 + 17? '' ''42.0'' ''add'' ''t1'' \<and>
   \<not> is_clear_command ''hello world'' \<and> evaluation ''hello world'' = None \<and>
   snd (process_query example_interp (MemoryManager 100) ''hello world'' ''t1'') =
     MemoryManager 100"
proof -
  let ?q = "''  What's   25 + 17? ''"
  let ?pd = "\<lparr>operation = ''add'', operands = [PyFloat 25, PyFloat 17],
               original_text = ''What's 25 + 17?''\<rparr>"
  have c1: "\<not> is_clear_command ?q"
    by (simp add: is_clear_command_def process_examples lower_examples)
  have e1: "evaluation ?q = Some (?pd, PyFloat 42)"
    by (simp add: evaluation_def process_examples lower_examples parse_whats_25_17
        calculate_25_17)
  have s1: "py_str example_interp (PyFloat 42) = Inr ''42.0''"
    by (simp add: py_str_float_42)
  have c2: "\<not> is_clear_command ''hello world''"
    by (simp add: is_clear_command_def process_examples lower_examples)
  have e2: "evaluation ''hello world'' = None"
    by (simp add: evaluation_def process_examples lower_examples parse_hello_world)
  from C7_history_modified [of ?q example_interp "MemoryManager 100" "''t1''"] c1 e1 s1
  have r1: "snd (process_query example_interp (MemoryManager 100) ?q ''t1'') =
     add (MemoryManager 100) ?q ''42.0'' (operation ?pd) ''t1''"
    by blast
  from C7_history_modified [of "''hello world''" example_interp "MemoryManager 100" "''t1''"]
    c2 e2
  have r2: "snd (process_query example_interp (MemoryManager 100) ''hello world'' ''t1'') =
     MemoryManager 100"
    by blast
  from c1 e1 s1 r1 c2 e2 r2 show ?thesis by simp
qed

end
